theory Spec2Isabelle
  imports Complex_Main "HOL-Library.Log_Nat"
begin

section \<open>The checkout screen of the cashier application\<close>

text \<open>
  The development embeds the \<open>Transaction\<close> component of
  \<open>frontend/src/App.js\<close>: the cart operations \<open>addToCart\<close> and
  \<open>updateCartItem\<close>, the price selection \<open>getPrice\<close>, the totals of
  \<open>calculateTotal\<close>, the guard of the submit button and \<open>processTransaction\<close>.

  Numbers. A JavaScript number is a binary64 double. A finite double is kept as the
  rational it denotes, and the values that are not finite (\<open>NaN\<close> and the two
  infinities) are constructors of their own in \<open>jsnum\<close>. Every arithmetic operation
  of the code is the exact operation followed by \<open>round64\<close>, the rounding of binary64
  to the nearest double, ties to even, with gradual underflow and with overflow to an
  infinity. The two zeros of binary64 are not told apart (as \<open>===\<close> and \<open><\<close> do not);
  a division by zero takes the zero as positive. The prices and percentages received
  from the server are doubles, since they were read from JSON.

  Quantities are integers: a line is created with quantity 1 and the component only ever
  passes \<open>item.quantity + 1\<close> or \<open>item.quantity - 1\<close> to \<open>updateCartItem\<close>.

  Texts. A string is the list of the bytes of its UTF-8 encoding.

  Names. The field \<open>id\<close> of a product and of a customer type is \<open>id'\<close> here.
  The state of the component is a record of the values of its \<open>useState\<close> hooks;
  an operation that calls a setter returns the state with that field updated.
\<close>

subsection \<open>Data received from the server\<close>

record product =
  id' :: string
  name :: string
  sku :: string
  price_regular :: rat
  price_sales :: rat
  price_bengkel :: rat
  stock :: int
  min_stock :: int
  category :: string

record customerType =
  id' :: string
  name :: string
  display_name :: string
  discount_percentage :: rat

subsection \<open>Binary64 numbers\<close>

datatype jsnum = Num rat | NaN | PosInfinity | NegInfinity

text \<open>The power of two with an integer exponent.\<close>

definition pow2 :: "int \<Rightarrow> rat" where
  "pow2 k = (if 0 \<le> k then 2 ^ nat k else 1 / 2 ^ nat (- k))"

text \<open>Rounding to the nearest integer, a tie to the even one.\<close>

definition rhe :: "rat \<Rightarrow> int" where
  "rhe q = (let f = \<lfloor>q\<rfloor>; d = q - of_int f
            in if d < 1 / 2 then f
               else if 1 / 2 < d then f + 1
               else if even f then f else f + 1)"

text \<open>
  The exponent of the unit in the last place of a magnitude \<open>x\<close>: for
  \<open>2 ^ e \<le> x < 2 ^ (e + 1)\<close> it is \<open>e - 52\<close>, and it is never below \<open>- 1074\<close>,
  the exponent of the subnormal numbers.
\<close>

definition ulpe :: "rat \<Rightarrow> int" where
  "ulpe x = max 0 (bitlen \<lfloor>x * pow2 1074\<rfloor> - 53) - 1074"

text \<open>The double nearest to a magnitude, \<open>None\<close> when it is beyond the largest one.\<close>

definition round_mag :: "rat \<Rightarrow> rat option" where
  "round_mag x =
     (let k = ulpe x; r = of_int (rhe (x / pow2 k)) * pow2 k
      in if pow2 1024 \<le> r then None else Some r)"

definition round64 :: "rat \<Rightarrow> jsnum" where
  "round64 x =
     (if x < 0
      then (case round_mag (- x) of None \<Rightarrow> NegInfinity | Some r \<Rightarrow> Num (- r))
      else (case round_mag x of None \<Rightarrow> PosInfinity | Some r \<Rightarrow> Num r))"

text \<open>A rational is a double when rounding leaves it as it is.\<close>

definition is_double :: "rat \<Rightarrow> bool" where
  "is_double x = (round64 x = Num x)"

text \<open>The operators \<open>-x\<close>, \<open>x + y\<close>, \<open>x - y\<close>, \<open>x * y\<close>, \<open>x / y\<close> and \<open>x < y\<close>.\<close>

fun js_neg :: "jsnum \<Rightarrow> jsnum" where
  "js_neg (Num x) = Num (- x)"
| "js_neg NaN = NaN"
| "js_neg PosInfinity = NegInfinity"
| "js_neg NegInfinity = PosInfinity"

fun js_add :: "jsnum \<Rightarrow> jsnum \<Rightarrow> jsnum" where
  "js_add (Num x) (Num y) = round64 (x + y)"
| "js_add NaN _ = NaN"
| "js_add _ NaN = NaN"
| "js_add PosInfinity NegInfinity = NaN"
| "js_add NegInfinity PosInfinity = NaN"
| "js_add PosInfinity _ = PosInfinity"
| "js_add _ PosInfinity = PosInfinity"
| "js_add NegInfinity _ = NegInfinity"
| "js_add _ NegInfinity = NegInfinity"

definition js_sub :: "jsnum \<Rightarrow> jsnum \<Rightarrow> jsnum" where
  "js_sub x y = js_add x (js_neg y)"

fun js_mul :: "jsnum \<Rightarrow> jsnum \<Rightarrow> jsnum" where
  "js_mul (Num x) (Num y) = round64 (x * y)"
| "js_mul NaN _ = NaN"
| "js_mul _ NaN = NaN"
| "js_mul PosInfinity (Num y) =
     (if y = 0 then NaN else if 0 < y then PosInfinity else NegInfinity)"
| "js_mul NegInfinity (Num y) =
     (if y = 0 then NaN else if 0 < y then NegInfinity else PosInfinity)"
| "js_mul (Num x) PosInfinity =
     (if x = 0 then NaN else if 0 < x then PosInfinity else NegInfinity)"
| "js_mul (Num x) NegInfinity =
     (if x = 0 then NaN else if 0 < x then NegInfinity else PosInfinity)"
| "js_mul PosInfinity PosInfinity = PosInfinity"
| "js_mul PosInfinity NegInfinity = NegInfinity"
| "js_mul NegInfinity PosInfinity = NegInfinity"
| "js_mul NegInfinity NegInfinity = PosInfinity"

fun js_div :: "jsnum \<Rightarrow> jsnum \<Rightarrow> jsnum" where
  "js_div (Num x) (Num y) =
     (if y = 0 then (if x = 0 then NaN else if 0 < x then PosInfinity else NegInfinity)
      else round64 (x / y))"
| "js_div NaN _ = NaN"
| "js_div _ NaN = NaN"
| "js_div (Num x) PosInfinity = Num 0"
| "js_div (Num x) NegInfinity = Num 0"
| "js_div PosInfinity (Num y) = (if 0 \<le> y then PosInfinity else NegInfinity)"
| "js_div NegInfinity (Num y) = (if 0 \<le> y then NegInfinity else PosInfinity)"
| "js_div PosInfinity PosInfinity = NaN"
| "js_div PosInfinity NegInfinity = NaN"
| "js_div NegInfinity PosInfinity = NaN"
| "js_div NegInfinity NegInfinity = NaN"

fun js_lt :: "jsnum \<Rightarrow> jsnum \<Rightarrow> bool" where
  "js_lt (Num x) (Num y) = (x < y)"
| "js_lt NaN _ = False"
| "js_lt _ NaN = False"
| "js_lt NegInfinity NegInfinity = False"
| "js_lt NegInfinity _ = True"
| "js_lt _ NegInfinity = False"
| "js_lt PosInfinity _ = False"
| "js_lt _ PosInfinity = True"

subsection \<open>The builtin \<open>parseFloat\<close>\<close>

text \<open>
  \<open>parseFloat\<close> skips leading white space and returns the value of the longest prefix
  of the rest that is a decimal literal (an optional sign, then \<open>Infinity\<close> or digits
  with an optional fraction and an optional exponent), rounded to a double, and
  \<open>NaN\<close> when no prefix is one.

  White space is the characters TAB, LF, VT, FF, CR and SP of ASCII, and U+00A0, U+1680,
  U+2000 to U+200A, U+2028, U+2029, U+202F, U+205F, U+3000 and U+FEFF, which are two or
  three bytes in UTF-8.
\<close>

definition isWhiteSpace :: "char \<Rightarrow> bool" where
  "isWhiteSpace c = (c \<in> set [CHR 0x09, CHR 0x0A, CHR 0x0B, CHR 0x0C, CHR 0x0D, CHR 0x20])"

definition isWhiteSpace2 :: "char \<Rightarrow> char \<Rightarrow> bool" where
  "isWhiteSpace2 a b = (a = CHR 0xC2 \<and> b = CHR 0xA0)"

definition isWhiteSpace3 :: "char \<Rightarrow> char \<Rightarrow> char \<Rightarrow> bool" where
  "isWhiteSpace3 a b c =
     ((a = CHR 0xE1 \<and> b = CHR 0x9A \<and> c = CHR 0x80)
      \<or> (a = CHR 0xE2 \<and> b = CHR 0x80
          \<and> ((0x80 \<le> (of_char c :: nat) \<and> (of_char c :: nat) \<le> 0x8A)
              \<or> c = CHR 0xA8 \<or> c = CHR 0xA9 \<or> c = CHR 0xAF))
      \<or> (a = CHR 0xE2 \<and> b = CHR 0x81 \<and> c = CHR 0x9F)
      \<or> (a = CHR 0xE3 \<and> b = CHR 0x80 \<and> c = CHR 0x80)
      \<or> (a = CHR 0xEF \<and> b = CHR 0xBB \<and> c = CHR 0xBF))"

fun skipWhiteSpace :: "string \<Rightarrow> string" where
  "skipWhiteSpace (a # b # c # s) =
     (if isWhiteSpace a then skipWhiteSpace (b # c # s)
      else if isWhiteSpace2 a b then skipWhiteSpace (c # s)
      else if isWhiteSpace3 a b c then skipWhiteSpace s
      else a # b # c # s)"
| "skipWhiteSpace [a, b] =
     (if isWhiteSpace a then skipWhiteSpace [b]
      else if isWhiteSpace2 a b then [] else [a, b])"
| "skipWhiteSpace [a] = (if isWhiteSpace a then [] else [a])"
| "skipWhiteSpace [] = []"

definition isDigit :: "char \<Rightarrow> bool" where
  "isDigit c = (c \<in> set ''0123456789'')"

definition digitValue :: "char \<Rightarrow> int" where
  "digitValue c = of_char c - 48"

definition decimalValue :: "string \<Rightarrow> int" where
  "decimalValue ds = foldl (\<lambda>v c. 10 * v + digitValue c) 0 ds"

definition stripSign :: "string \<Rightarrow> bool \<times> string" where
  "stripSign s = (case s of
       [] \<Rightarrow> (False, s)
     | c # r \<Rightarrow> if c = CHR ''-'' then (True, r)
                else if c = CHR ''+'' then (False, r) else (False, s))"

definition exponentPart :: "string \<Rightarrow> int" where
  "exponentPart s = (case s of
       [] \<Rightarrow> 0
     | c # r \<Rightarrow>
         if c = CHR ''e'' \<or> c = CHR ''E'' then
           (let (neg, r') = stripSign r; ds = takeWhile isDigit r'
            in if ds = [] then 0
               else if neg then - decimalValue ds else decimalValue ds)
         else 0)"

definition scale10 :: "rat \<Rightarrow> int \<Rightarrow> rat" where
  "scale10 m e = (if e < 0 then m / 10 ^ nat (- e) else m * 10 ^ nat e)"

text \<open>The longest unsigned decimal literal at the head of a text, with its exact value.\<close>

datatype literal = NoLiteral | InfinityLiteral | Decimal rat

definition unsignedDecimal :: "string \<Rightarrow> literal" where
  "unsignedDecimal s =
     (if take 8 s = ''Infinity'' then InfinityLiteral
      else
        let ip = takeWhile isDigit s;
            r1 = dropWhile isDigit s;
            (fp, r2) = (case r1 of
                 [] \<Rightarrow> ([], r1)
               | c # r \<Rightarrow> if c = CHR ''.''
                          then (takeWhile isDigit r, dropWhile isDigit r) else ([], r1))
        in if ip = [] \<and> fp = [] then NoLiteral
           else Decimal (scale10 (of_int (decimalValue ip)
                                   + of_int (decimalValue fp) / 10 ^ length fp)
                                 (exponentPart r2)))"

definition parseFloat :: "string \<Rightarrow> jsnum" where
  "parseFloat s =
     (let (neg, r) = stripSign (skipWhiteSpace s)
      in case unsignedDecimal r of
           NoLiteral \<Rightarrow> NaN
         | InfinityLiteral \<Rightarrow> (if neg then NegInfinity else PosInfinity)
         | Decimal v \<Rightarrow> (if neg then js_neg (round64 v) else round64 v))"

subsection \<open>The request sent to the server\<close>

record request_item =
  product_id :: string
  quantity :: int

record transaction_request =
  customer_type :: string
  items :: "request_item list"
  payment_method :: string
  payment_amount :: jsnum

subsection \<open>The state of the component\<close>

record cart_item =
  product_id :: string
  product :: product
  quantity :: int

record state =
  products :: "product list"
  customerTypes :: "customerType list"
  cart :: "cart_item list"
  selectedCustomerType :: string
  paymentMethod :: string
  paymentAmount :: string
  searchTerm :: string
  manualDiscountType :: string
  manualDiscountValue :: string

text \<open>The state a freshly mounted component starts from (the \<open>useState\<close> calls).\<close>

definition initial :: state where
  "initial = \<lparr>products = [], customerTypes = [], cart = [],
              selectedCustomerType = ''regular'', paymentMethod = ''tunai'',
              paymentAmount = [], searchTerm = [],
              manualDiscountType = ''none'', manualDiscountValue = []\<rparr>"

subsection \<open>Cart operations\<close>

definition addToCart :: "product \<Rightarrow> state \<Rightarrow> state" where
  "addToCart p st =
     (case List.find (\<lambda>item. cart_item.product_id item = product.id' p) (cart st) of
        Some existingItem \<Rightarrow>
          st\<lparr>cart := map (\<lambda>item. if cart_item.product_id item = product.id' p
                                  then item\<lparr>cart_item.quantity := cart_item.quantity item + 1\<rparr>
                                  else item) (cart st)\<rparr>
      | None \<Rightarrow>
          st\<lparr>cart := cart st @ [\<lparr>cart_item.product_id = product.id' p,
                                  cart_item.product = p, cart_item.quantity = 1\<rparr>]\<rparr>)"

definition updateCartItem :: "string \<Rightarrow> int \<Rightarrow> state \<Rightarrow> state" where
  "updateCartItem productId q st =
     (if q \<le> 0
      then st\<lparr>cart := filter (\<lambda>item. cart_item.product_id item \<noteq> productId) (cart st)\<rparr>
      else st\<lparr>cart := map (\<lambda>item. if cart_item.product_id item = productId
                                   then item\<lparr>cart_item.quantity := q\<rparr>
                                   else item) (cart st)\<rparr>)"

subsection \<open>Prices and totals\<close>

definition getPrice :: "product \<Rightarrow> string \<Rightarrow> rat" where
  "getPrice p ct =
     (if ct = ''sales'' then price_sales p
      else if ct = ''bengkel'' then price_bengkel p
      else price_regular p)"

record totals =
  subtotal :: jsnum
  discountAmount :: jsnum
  total :: jsnum

text \<open>
  \<open>discountPercentage\<close> is \<open>selectedCustomerTypeData?.discount_percentage || 0\<close>:
  0 when no customer type has the selected name, and the falsy percentage 0 is replaced
  by 0.
\<close>

definition discountPercentage :: "state \<Rightarrow> rat" where
  "discountPercentage st =
     (case List.find (\<lambda>ct. customerType.name ct = selectedCustomerType st) (customerTypes st) of
        None \<Rightarrow> 0
      | Some selectedCustomerTypeData \<Rightarrow>
          if discount_percentage selectedCustomerTypeData = 0 then 0
          else discount_percentage selectedCustomerTypeData)"

text \<open>The body of the \<open>forEach\<close>: \<open>subtotal += price * item.quantity\<close>.\<close>

definition addLineTotal :: "string \<Rightarrow> jsnum \<Rightarrow> cart_item \<Rightarrow> jsnum" where
  "addLineTotal ct s item =
     js_add s (js_mul (Num (getPrice (cart_item.product item) ct))
                      (Num (of_int (cart_item.quantity item))))"

definition calculateTotal :: "state \<Rightarrow> totals" where
  "calculateTotal st =
     (let subtotal = foldl (addLineTotal (selectedCustomerType st)) (Num 0) (cart st);
          discountAmount = js_mul subtotal (js_div (Num (discountPercentage st)) (Num 100));
          total = js_sub subtotal discountAmount
      in \<lparr>subtotal = subtotal, discountAmount = discountAmount, total = total\<rparr>)"

subsection \<open>Checkout\<close>


definition transactionData :: "state \<Rightarrow> transaction_request" where
  "transactionData st =
     \<lparr>customer_type = selectedCustomerType st,
      items = map (\<lambda>item. \<lparr>request_item.product_id = cart_item.product_id item,
                            request_item.quantity = cart_item.quantity item\<rparr>) (cart st),
      payment_method = paymentMethod st,
      payment_amount = parseFloat (paymentAmount st)\<rparr>"

text \<open>
  The answer of the server to the request: the promise of \<open>axios.post\<close> resolves, or
  it is rejected, with the \<open>detail\<close> of the error response when there is one.
\<close>

datatype response = Resolved | Rejected "string option"

datatype alert = InsufficientPayment | Success jsnum | Failure string

record result =
  new_state :: state
  shown :: alert
  posted :: "transaction_request option"

text \<open>
  \<open>processTransaction\<close>, with the server as a function from the request to its answer,
  and \<open>refreshed\<close> the product list that \<open>fetchProducts\<close> stores after a successful
  transaction (\<open>None\<close> when that request fails, which leaves the list as it is).
\<close>

definition processTransaction ::
    "(transaction_request \<Rightarrow> response) \<Rightarrow> product list option \<Rightarrow> state \<Rightarrow> result" where
  "processTransaction post refreshed st =
     (let total = total (calculateTotal st);
          payAmount = parseFloat (paymentAmount st)
      in if js_lt payAmount total
         then \<lparr>new_state = st, shown = InsufficientPayment, posted = None\<rparr>
         else
           (case post (transactionData st) of
              Resolved \<Rightarrow>
                \<lparr>new_state = st\<lparr>cart := [], paymentAmount := [],
                                  products := (case refreshed of None \<Rightarrow> products st
                                               | Some ps \<Rightarrow> ps)\<rparr>,
                 shown = Success (js_sub payAmount total),
                 posted = Some (transactionData st)\<rparr>
            | Rejected detail \<Rightarrow>
                \<lparr>new_state = st,
                 shown = Failure (case detail of
                                    None \<Rightarrow> ''Error processing transaction''
                                  | Some d \<Rightarrow> if d = [] then ''Error processing transaction''
                                              else d),
                 posted = Some (transactionData st)\<rparr>))"

subsection \<open>The invariant of the cart\<close>

text \<open>At most one line for each product, and every quantity at least 1.\<close>

definition cart_invariant :: "cart_item list \<Rightarrow> bool" where
  "cart_invariant c = (distinct (map cart_item.product_id c)
                       \<and> (\<forall>item \<in> set c. 1 \<le> cart_item.quantity item))"

subsection \<open>The ranges of the data\<close>

text \<open>
  The prices of the products in the cart are not negative, the quantities are at least
  1, and the discount of every customer type is between 0 and 100 percent.
\<close>

definition in_range :: "state \<Rightarrow> bool" where
  "in_range st =
     ((\<forall>item \<in> set (cart st).
          0 \<le> price_regular (cart_item.product item)
          \<and> 0 \<le> price_sales (cart_item.product item)
          \<and> 0 \<le> price_bengkel (cart_item.product item)
          \<and> 1 \<le> cart_item.quantity item)
      \<and> (\<forall>ct \<in> set (customerTypes st).
            0 \<le> discount_percentage ct \<and> discount_percentage ct \<le> 100))"

subsection \<open>Adding a quantity at once\<close>

text \<open>
  \<open>addLine\<close> is not a function of the component, which can only add one unit at a
  time. It follows the words of the specification (section 4.2): a quantity that is not
  positive is rejected; if the product already has a line, its quantity is incremented
  by the quantity; otherwise a new line with that quantity is inserted. It is what
  \<open>addToCart\<close> is compared with.
\<close>

definition addLine :: "product \<Rightarrow> int \<Rightarrow> cart_item list \<Rightarrow> cart_item list" where
  "addLine p q c =
     (if q \<le> 0 then c
      else if product.id' p \<in> cart_item.product_id ` set c
      then map (\<lambda>item. if cart_item.product_id item = product.id' p
                        then item\<lparr>cart_item.quantity := cart_item.quantity item + q\<rparr>
                        else item) c
      else c @ [\<lparr>cart_item.product_id = product.id' p, cart_item.product = p,
                 cart_item.quantity = q\<rparr>])"

subsection \<open>The discount amount as the specification words it\<close>

text \<open>
  Not a function of the component. It follows the words of the specification
  (section 4.3), in exact arithmetic, for a subtotal \<open>s\<close>: the tier discount
  \<open>s * discountPercentage / 100\<close> plus the manual discount, which is
  \<open>s * value / 100\<close> in percentage mode, \<open>min value s\<close> in fixed-amount mode and
  nothing otherwise. The mode and the value are the \<open>manualDiscountType\<close> and
  \<open>manualDiscountValue\<close> of the state.
\<close>

definition claimed_discountAmount :: "rat \<Rightarrow> state \<Rightarrow> rat" where
  "claimed_discountAmount s st =
     (let tierDiscount = s * discountPercentage st / 100;
          v = (case parseFloat (manualDiscountValue st) of Num a \<Rightarrow> a | _ \<Rightarrow> 0);
          manualDiscount =
            (if manualDiscountType st = ''percentage'' then s * v / 100
             else if manualDiscountType st = ''amount'' then min v s
             else 0)
      in tierDiscount + manualDiscount)"

subsection \<open>Example data\<close>

definition productA :: product where
  "productA = \<lparr>product.id' = ''A'', product.name = ''Oli Mesin'', sku = ''OLI-1'',
               price_regular = 10000, price_sales = 9000, price_bengkel = 8500,
               stock = 12, min_stock = 2, category = ''oli''\<rparr>"

definition productB :: product where
  "productB = \<lparr>product.id' = ''B'', product.name = ''Busi'', sku = ''BUSI-1'',
               price_regular = 5000, price_sales = 5000, price_bengkel = 4500,
               stock = 30, min_stock = 5, category = ''busi''\<rparr>"

definition lineA :: cart_item where
  "lineA = \<lparr>cart_item.product_id = ''A'', cart_item.product = productA,
            cart_item.quantity = 2\<rparr>"

definition lineB :: cart_item where
  "lineB = \<lparr>cart_item.product_id = ''B'', cart_item.product = productB,
            cart_item.quantity = 1\<rparr>"

definition regularType :: customerType where
  "regularType = \<lparr>customerType.id' = ''1'', customerType.name = ''regular'',
                  display_name = ''Biasa'', discount_percentage = 0\<rparr>"

definition salesType :: customerType where
  "salesType = \<lparr>customerType.id' = ''2'', customerType.name = ''sales'',
                display_name = ''Sales'', discount_percentage = 10\<rparr>"

text \<open>A session with two lines in the cart and 25000 typed as the payment.\<close>

definition session :: state where
  "session = initial\<lparr>products := [productA, productB],
                      customerTypes := [regularType, salesType],
                      cart := [lineA, lineB],
                      paymentAmount := ''25000''\<rparr>"

text \<open>The same session with the customer type \<open>sales\<close> selected (10 percent).\<close>

definition sales_session :: state where
  "sales_session = session\<lparr>selectedCustomerType := ''sales''\<rparr>"

text \<open>The same again, with a payment of 15000, less than the total.\<close>

definition short_session :: state where
  "short_session = sales_session\<lparr>paymentAmount := ''15000''\<rparr>"

text \<open>
  A product at 1500 and a customer type with a discount of 57 percent; the session
  after the product was added once, with that customer type selected.
\<close>

definition productC :: product where
  "productC = \<lparr>product.id' = ''C'', product.name = ''Kampas Rem'', sku = ''REM-1'',
               price_regular = 1500, price_sales = 1500, price_bengkel = 1500,
               stock = 8, min_stock = 2, category = ''rem''\<rparr>"

definition bengkelType :: customerType where
  "bengkelType = \<lparr>customerType.id' = ''3'', customerType.name = ''bengkel'',
                  display_name = ''Bengkel'', discount_percentage = 57\<rparr>"

definition rounding :: state where
  "rounding = addToCart productC
                (initial\<lparr>products := [productC], customerTypes := [regularType, bengkelType],
                         selectedCustomerType := ''bengkel''\<rparr>)"

text \<open>
  A product whose price is the double \<open>2 ^ 1023\<close> (about 8.99e307); the session after
  the product was added twice, with no customer type loaded.
\<close>

definition productH :: product where
  "productH = \<lparr>product.id' = ''H'', product.name = ''Mesin'', sku = ''MSN-1'',
               price_regular = 2 ^ 1023, price_sales = 2 ^ 1023, price_bengkel = 2 ^ 1023,
               stock = 2, min_stock = 1, category = ''mesin''\<rparr>"

definition overflowing :: state where
  "overflowing = addToCart productH (addToCart productH (initial\<lparr>products := [productH]\<rparr>))"


text \<open>The first session with a customer type selected that is not in the list.\<close>

definition unlisted :: state where
  "unlisted = session\<lparr>selectedCustomerType := ''grosir''\<rparr>"

text \<open>The same cart with the customer type \<open>sales\<close> loaded and selected.\<close>

definition overflowing_sales :: state where
  "overflowing_sales = overflowing\<lparr>customerTypes := [regularType, salesType],
                                   selectedCustomerType := ''sales''\<rparr>"

section \<open>Properties\<close>

subsection \<open>Rounding to a double\<close>

lemma pow2_powi: "pow2 k = 2 powi k"
  by (simp add: pow2_def power_int_def inverse_eq_divide power_one_over)

lemma pow2_pos: "0 < pow2 k"
  by (simp add: pow2_powi)

lemma pow2_add: "pow2 (a + b) = pow2 a * pow2 b"
  by (simp add: pow2_powi power_int_add)

lemma pow2_mono: "a \<le> b \<Longrightarrow> pow2 a \<le> pow2 b"
  by (simp add: pow2_powi power_int_increasing)

lemma pow2_strict_mono: "a < b \<Longrightarrow> pow2 a < pow2 b"
  by (simp add: pow2_powi power_int_strict_increasing)

lemma pow2_less_iff: "pow2 a < pow2 b \<longleftrightarrow> a < b"
  using pow2_mono [of b a] pow2_strict_mono [of a b] by (auto simp: not_le [symmetric])

lemma pow2_le_iff: "pow2 a \<le> pow2 b \<longleftrightarrow> a \<le> b"
  using pow2_mono [of a b] pow2_strict_mono [of b a] by (auto simp: not_less [symmetric])

lemma pow2_nat: "pow2 (int n) = 2 ^ n"
  by (simp add: pow2_def)

lemma pow2_diff: "pow2 (a - b) = pow2 a / pow2 b"
  by (simp add: pow2_powi power_int_diff)

lemma pow2_of_int: "0 \<le> k \<Longrightarrow> pow2 k = of_int (2 ^ nat k)"
  by (simp add: pow2_def)

lemma rhe_of_int: "rhe (of_int n) = n"
  by (simp add: rhe_def)

lemma rhe_le: "q \<le> of_int n \<Longrightarrow> rhe q \<le> n"
proof (cases "q = of_int n")
  case True
  then show ?thesis by (simp add: rhe_of_int)
next
  case False
  assume "q \<le> of_int n"
  with False have "q < of_int n" by simp
  then have "\<lfloor>q\<rfloor> < n" by (simp add: floor_less_iff)
  then show ?thesis by (simp add: rhe_def Let_def)
qed

lemma rhe_ge: "of_int n \<le> q \<Longrightarrow> n \<le> rhe q"
proof -
  assume "of_int n \<le> q"
  then have "n \<le> \<lfloor>q\<rfloor>" by (simp add: le_floor_iff)
  then show ?thesis by (simp add: rhe_def Let_def)
qed

lemma ulpe_ge: "- 1074 \<le> ulpe x"
  by (simp add: ulpe_def)

lemma scaled_bounds:
  assumes "0 \<le> x"
  shows "x * pow2 1074 < pow2 (bitlen \<lfloor>x * pow2 1074\<rfloor>)"
    and "0 < bitlen \<lfloor>x * pow2 1074\<rfloor> \<Longrightarrow> pow2 (bitlen \<lfloor>x * pow2 1074\<rfloor> - 1) \<le> x * pow2 1074"
proof -
  let ?X = "x * pow2 1074"
  let ?n = "\<lfloor>?X\<rfloor>"
  let ?b = "bitlen ?n"
  from assms have "0 \<le> ?X" using pow2_pos [of 1074] by simp
  then have n0: "0 \<le> ?n" by simp
  have b0: "0 \<le> ?b" by (rule bitlen_nonneg)
  have "?n < 2 ^ nat ?b"
  proof (cases "?n = 0")
    case True
    then show ?thesis by simp
  next
    case False
    with n0 have "0 < ?n" by linarith
    then show ?thesis using bitlen_bounds by blast
  qed
  then have "?n + 1 \<le> 2 ^ nat ?b" by linarith
  then have "(of_int (?n + 1) :: rat) \<le> of_int (2 ^ nat ?b)" by (simp only: of_int_le_iff)
  moreover have "?X < of_int (?n + 1)" by linarith
  ultimately have "?X < of_int (2 ^ nat ?b)" by linarith
  with b0 show "?X < pow2 ?b" by (simp only: pow2_of_int)
  assume bp: "0 < ?b"
  then have "0 < ?n" using bitlen_eq_zero_iff [of ?n] by linarith
  then have "2 ^ nat (?b - 1) \<le> ?n" using bitlen_bounds by blast
  then have "(of_int (2 ^ nat (?b - 1)) :: rat) \<le> of_int ?n" by (simp only: of_int_le_iff)
  moreover have "of_int ?n \<le> ?X" by linarith
  ultimately have "(of_int (2 ^ nat (?b - 1)) :: rat) \<le> ?X" by linarith
  moreover from bp have "0 \<le> ?b - 1" by simp
  ultimately show "pow2 (?b - 1) \<le> ?X" by (simp only: pow2_of_int)
qed

lemma ulpe_upper:
  assumes "0 \<le> x"
  shows "x < pow2 (ulpe x + 53)"
proof -
  let ?b = "bitlen \<lfloor>x * pow2 1074\<rfloor>"
  have "?b \<le> ulpe x + 53 + 1074" by (simp add: ulpe_def)
  then have "pow2 ?b \<le> pow2 (ulpe x + 53 + 1074)" by (rule pow2_mono)
  also have "\<dots> = pow2 (ulpe x + 53) * pow2 1074" by (rule pow2_add)
  finally have "x * pow2 1074 < pow2 (ulpe x + 53) * pow2 1074"
    using scaled_bounds(1) [OF assms] by simp
  then show ?thesis using pow2_pos [of 1074] by (simp only: mult_less_cancel_right_pos)
qed

lemma ulpe_lower:
  assumes "0 \<le> x" and "ulpe x \<noteq> - 1074"
  shows "pow2 (ulpe x + 52) \<le> x"
proof -
  let ?b = "bitlen \<lfloor>x * pow2 1074\<rfloor>"
  from assms(2) have b: "53 < ?b" and u: "ulpe x = ?b - 53 - 1074"
    by (auto simp: ulpe_def max_def split: if_splits)
  from b have "0 < ?b" by simp
  then have "pow2 (?b - 1) \<le> x * pow2 1074" by (rule scaled_bounds(2) [OF assms(1)])
  moreover have "?b - 1 = (ulpe x + 52) + 1074" using u by simp
  ultimately have "pow2 ((ulpe x + 52) + 1074) \<le> x * pow2 1074" by simp
  then have "pow2 (ulpe x + 52) * pow2 1074 \<le> x * pow2 1074" by (simp only: pow2_add)
  then show ?thesis using pow2_pos [of 1074] by (simp only: mult_le_cancel_right_pos)
qed

lemma ulpe_unique:
  assumes "0 \<le> x" and "- 1074 \<le> k" and "x < pow2 (k + 53)"
    and "k = - 1074 \<or> pow2 (k + 52) \<le> x"
  shows "ulpe x = k"
proof (rule antisym)
  show "ulpe x \<le> k"
  proof (cases "ulpe x = - 1074")
    case True
    with assms(2) show ?thesis by simp
  next
    case False
    with assms(1) have "pow2 (ulpe x + 52) \<le> x" by (rule ulpe_lower)
    with assms(3) have "pow2 (ulpe x + 52) < pow2 (k + 53)" by simp
    then show ?thesis by (simp add: pow2_less_iff)
  qed
  show "k \<le> ulpe x"
  proof (cases "k = - 1074")
    case True
    then show ?thesis by (simp add: ulpe_ge)
  next
    case False
    with assms(4) have "pow2 (k + 52) \<le> x" by simp
    with ulpe_upper [OF assms(1)] have "pow2 (k + 52) < pow2 (ulpe x + 53)" by simp
    then show ?thesis by (simp add: pow2_less_iff)
  qed
qed

lemma ulpe_mono:
  assumes "0 \<le> x" and "x \<le> y"
  shows "ulpe x \<le> ulpe y"
proof (cases "ulpe x = - 1074")
  case True
  then show ?thesis by (simp add: ulpe_ge)
next
  case False
  with assms(1) have "pow2 (ulpe x + 52) \<le> x" by (rule ulpe_lower)
  moreover from assms have "y < pow2 (ulpe y + 53)" by (intro ulpe_upper) simp
  ultimately have "pow2 (ulpe x + 52) < pow2 (ulpe y + 53)" using assms(2) by simp
  then show ?thesis by (simp add: pow2_less_iff)
qed


lemma round_mag_eval:
  assumes "0 \<le> x" and "- 1074 \<le> k" and "x < pow2 (k + 53)"
    and "k = - 1074 \<or> pow2 (k + 52) \<le> x"
  shows "round_mag x = (if pow2 1024 \<le> of_int (rhe (x / pow2 k)) * pow2 k then None
                         else Some (of_int (rhe (x / pow2 k)) * pow2 k))"
  using ulpe_unique [OF assms] by (simp add: round_mag_def)

lemma round_mag_Some:
  "round_mag x = Some r \<longleftrightarrow>
     r = of_int (rhe (x / pow2 (ulpe x))) * pow2 (ulpe x) \<and> r < pow2 1024"
  by (auto simp: round_mag_def Let_def)

lemma round_mag_nonneg:
  assumes "0 \<le> x" and "round_mag x = Some r"
  shows "0 \<le> r"
proof -
  from assms(1) have "of_int 0 \<le> x / pow2 (ulpe x)"
    using pow2_pos [of "ulpe x"] by simp
  then have "0 \<le> rhe (x / pow2 (ulpe x))" by (rule rhe_ge)
  moreover from assms(2) have "r = of_int (rhe (x / pow2 (ulpe x))) * pow2 (ulpe x)"
    by (simp add: round_mag_Some)
  ultimately show ?thesis using pow2_pos [of "ulpe x"] by simp
qed

lemma multiple_coarser:
  assumes "k \<le> l"
  shows "of_int m * pow2 l = of_int (m * 2 ^ nat (l - k)) * pow2 k"
proof -
  from assms have "pow2 (l - k) = of_int (2 ^ nat (l - k))" by (simp add: pow2_of_int)
  moreover have "pow2 l = pow2 (l - k) * pow2 k" using pow2_add [of "l - k" k] by simp
  ultimately show ?thesis by simp
qed

lemma round_mag_le:
  assumes "0 \<le> x" and "x \<le> s" and "round_mag s = Some s"
  shows "\<exists>r. round_mag x = Some r \<and> r \<le> s"
proof -
  let ?k = "ulpe x" and ?l = "ulpe s"
  let ?M = "rhe (s / pow2 ?l)"
  let ?N = "?M * 2 ^ nat (?l - ?k)"
  from assms(3) have s: "s = of_int ?M * pow2 ?l" and fin: "s < pow2 1024"
    by (simp_all add: round_mag_Some)
  from assms(1,2) have "?k \<le> ?l" by (rule ulpe_mono)
  then have "of_int ?M * pow2 ?l = of_int ?N * pow2 ?k" by (rule multiple_coarser)
  with s have sN: "s = of_int ?N * pow2 ?k" by simp
  have "of_int ?N * pow2 ?k / pow2 ?k = (of_int ?N :: rat)" using pow2_pos [of ?k] by simp
  with sN have "s / pow2 ?k = of_int ?N" by simp
  moreover from assms(2) have "x / pow2 ?k \<le> s / pow2 ?k"
    using pow2_pos [of ?k] by (simp add: divide_right_mono)
  ultimately have "x / pow2 ?k \<le> of_int ?N" by simp
  then have "rhe (x / pow2 ?k) \<le> ?N" by (rule rhe_le)
  then have "(of_int (rhe (x / pow2 ?k)) :: rat) \<le> of_int ?N" by (simp only: of_int_le_iff)
  then have "of_int (rhe (x / pow2 ?k)) * pow2 ?k \<le> of_int ?N * pow2 ?k"
    using pow2_pos [of ?k] by (simp only: mult_le_cancel_right_pos)
  with sN have le: "of_int (rhe (x / pow2 ?k)) * pow2 ?k \<le> s" by simp
  with fin have "of_int (rhe (x / pow2 ?k)) * pow2 ?k < pow2 1024" by simp
  then have "round_mag x = Some (of_int (rhe (x / pow2 ?k)) * pow2 ?k)"
    by (simp add: round_mag_Some)
  with le show ?thesis by blast
qed

lemma round_mag_idem:
  assumes "0 \<le> x" and "round_mag x = Some r"
  shows "round_mag r = Some r"
proof -
  let ?k = "ulpe x"
  let ?m = "rhe (x / pow2 ?k)"
  from assms(2) have r: "r = of_int ?m * pow2 ?k" and fin: "r < pow2 1024"
    by (simp_all add: round_mag_Some)
  from assms have r0: "0 \<le> r" by (rule round_mag_nonneg)
  have p53: "pow2 53 = of_int (2 ^ 53)" and p52: "pow2 52 = of_int (2 ^ 52)"
    by (simp_all add: pow2_def)
  have "x < pow2 53 * pow2 ?k" using ulpe_upper [OF assms(1)] by (simp add: pow2_add mult.commute)
  then have "x / pow2 ?k < pow2 53" using pow2_pos [of ?k] by (simp add: pos_divide_less_eq)
  then have "x / pow2 ?k \<le> of_int (2 ^ 53)" by (simp add: p53)
  then have m_le: "?m \<le> 2 ^ 53" by (rule rhe_le)
  show ?thesis
  proof (cases "r < pow2 (?k + 53)")
    case True
    have "?k = - 1074 \<or> pow2 (?k + 52) \<le> r"
    proof (cases "?k = - 1074")
      case True
      then show ?thesis by simp
    next
      case False
      with assms(1) have "pow2 (?k + 52) \<le> x" by (rule ulpe_lower)
      then have "pow2 52 * pow2 ?k \<le> x" by (simp add: pow2_add mult.commute)
      then have "pow2 52 \<le> x / pow2 ?k" using pow2_pos [of ?k] by (simp add: pos_le_divide_eq)
      then have "of_int (2 ^ 52) \<le> x / pow2 ?k" by (simp add: p52)
      then have "2 ^ 52 \<le> ?m" by (rule rhe_ge)
      then have "(of_int (2 ^ 52) :: rat) \<le> of_int ?m" by (simp only: of_int_le_iff)
      then have "pow2 52 * pow2 ?k \<le> of_int ?m * pow2 ?k"
        using pow2_pos [of ?k] by (simp only: p52 mult_le_cancel_right_pos)
      then show ?thesis by (simp add: r pow2_add mult.commute)
    qed
    with r0 ulpe_ge [of x] True have "ulpe r = ?k" by (intro ulpe_unique)
    moreover have "r / pow2 ?k = of_int ?m" using pow2_pos [of ?k] by (simp add: r)
    ultimately have "of_int (rhe (r / pow2 (ulpe r))) * pow2 (ulpe r) = r"
      by (simp add: rhe_of_int r)
    with fin show ?thesis by (simp add: round_mag_Some)
  next
    case False
    then have "pow2 53 * pow2 ?k \<le> of_int ?m * pow2 ?k" by (simp add: r pow2_add mult.commute)
    then have "pow2 53 \<le> of_int ?m" using pow2_pos [of ?k] by (simp only: mult_le_cancel_right_pos)
    then have "(of_int (2 ^ 53) :: rat) \<le> of_int ?m" by (simp add: p53)
    then have "2 ^ 53 \<le> ?m" by (simp only: of_int_le_iff)
    with m_le have "?m = 2 ^ 53" by simp
    then have "r = pow2 53 * pow2 ?k" by (simp only: r p53)
    also have "\<dots> = pow2 (53 + ?k)" by (simp only: pow2_add)
    also have "53 + ?k = ?k + 1 + 52" by simp
    finally have rk: "r = pow2 (?k + 1 + 52)" .
    have "- 1074 \<le> ?k + 1" using ulpe_ge [of x] by simp
    moreover have "r < pow2 (?k + 1 + 53)" by (simp add: rk pow2_less_iff)
    moreover have "?k + 1 = - 1074 \<or> pow2 (?k + 1 + 52) \<le> r" by (simp add: rk)
    ultimately have u: "ulpe r = ?k + 1" using r0 by (intro ulpe_unique)
    have "pow2 (?k + 1 + 52) = pow2 (52 + (?k + 1))" by (simp add: add.commute)
    also have "\<dots> = pow2 52 * pow2 (?k + 1)" by (simp only: pow2_add)
    finally have r52: "r = pow2 52 * pow2 (?k + 1)" by (simp only: rk)
    have "pow2 52 * pow2 (?k + 1) / pow2 (?k + 1) = pow2 52"
      using pow2_pos [of "?k + 1"] by simp
    then have "r / pow2 (?k + 1) = of_int (2 ^ 52)" by (simp only: r52 p52)
    then have "rhe (r / pow2 (ulpe r)) = 2 ^ 52" by (simp only: u rhe_of_int)
    then have "of_int (rhe (r / pow2 (ulpe r))) * pow2 (ulpe r) = pow2 52 * pow2 (?k + 1)"
      by (simp only: u p52)
    also have "\<dots> = r" by (simp only: r52)
    finally show ?thesis using fin by (simp add: round_mag_Some)
  qed
qed

lemma round_mag_0: "round_mag 0 = Some 0"
  by (simp add: round_mag_Some rhe_def pow2_pos)


lemma round_mag_multiple:
  assumes "0 \<le> m" and "m < 2 ^ 53" and "- 1074 \<le> k" and "k \<le> 971"
  shows "round_mag (of_int m * pow2 k) = Some (of_int m * pow2 k)"
proof -
  let ?x = "of_int m * pow2 k :: rat"
  let ?u = "ulpe ?x"
  have p53: "pow2 53 = of_int (2 ^ 53)" by (simp add: pow2_def)
  from assms(1) have x0: "0 \<le> ?x" using pow2_pos [of k] by simp
  from assms(2) have "(of_int m :: rat) < of_int (2 ^ 53)" by (simp only: of_int_less_iff)
  then have "?x < pow2 53 * pow2 k" using pow2_pos [of k] by (simp only: p53 mult_less_cancel_right_pos)
  then have xlt: "?x < pow2 (53 + k)" by (simp only: pow2_add)
  have uk: "?u \<le> k"
  proof (cases "?u = - 1074")
    case True
    with assms(3) show ?thesis by simp
  next
    case False
    with x0 have "pow2 (?u + 52) \<le> ?x" by (rule ulpe_lower)
    with xlt have "pow2 (?u + 52) < pow2 (53 + k)" by simp
    then show ?thesis by (simp add: pow2_less_iff)
  qed
  then have e1: "?x = of_int (m * 2 ^ nat (k - ?u)) * pow2 ?u" by (rule multiple_coarser)
  have "?x / pow2 ?u = of_int (m * 2 ^ nat (k - ?u)) * pow2 ?u / pow2 ?u"
    using e1 by (rule arg_cong [where f = "\<lambda>z. z / pow2 ?u"])
  also have "\<dots> = of_int (m * 2 ^ nat (k - ?u))"
    using pow2_pos [of ?u] by simp
  finally have "?x / pow2 ?u = of_int (m * 2 ^ nat (k - ?u))" .
  then have "rhe (?x / pow2 ?u) = m * 2 ^ nat (k - ?u)" by (simp only: rhe_of_int)
  then have "of_int (rhe (?x / pow2 ?u)) * pow2 ?u = of_int (m * 2 ^ nat (k - ?u)) * pow2 ?u"
    by simp
  also have "\<dots> = ?x" by (simp only: e1 [symmetric])
  finally have eq: "of_int (rhe (?x / pow2 ?u)) * pow2 ?u = ?x" .
  from assms(4) have "53 + k \<le> 1024" by simp
  then have "pow2 (53 + k) \<le> pow2 1024" by (rule pow2_mono)
  with xlt have "?x < pow2 1024" by simp
  with eq show ?thesis by (simp only: round_mag_Some simp_thms)
qed

lemma round_mag_int:
  assumes "0 \<le> n" and "n < 2 ^ 53"
  shows "round_mag (of_int n) = Some (of_int n)"
  using round_mag_multiple [OF assms, of 0] by (simp add: pow2_def)

lemma round64_nonneg:
  assumes "0 \<le> x" and "round64 x = Num r"
  shows "0 \<le> r"
  using assms round_mag_nonneg [of x]
  by (auto simp: round64_def split: option.splits)

lemma is_double_nonneg: "0 \<le> s \<Longrightarrow> is_double s \<longleftrightarrow> round_mag s = Some s"
  by (auto simp: is_double_def round64_def split: option.splits)

lemma round64_le:
  assumes "0 \<le> x" and "x \<le> s" and "is_double s"
  shows "\<exists>r. round64 x = Num r \<and> 0 \<le> r \<and> r \<le> s"
proof -
  from assms have "round_mag s = Some s" by (simp add: is_double_nonneg)
  with assms(1,2) obtain r where r: "round_mag x = Some r" "r \<le> s"
    using round_mag_le by blast
  with assms(1) have "round64 x = Num r" by (simp add: round64_def)
  moreover from assms(1) r(1) have "0 \<le> r" by (rule round_mag_nonneg)
  ultimately show ?thesis using r(2) by blast
qed

lemma round64_double:
  assumes "round64 x = Num r"
  shows "is_double r"
proof (cases "x < 0")
  case False
  then have x0: "0 \<le> x" by simp
  with assms have rm: "round_mag x = Some r" by (auto simp: round64_def split: option.splits)
  with x0 have "0 \<le> r" by (rule round_mag_nonneg)
  moreover from x0 rm have "round_mag r = Some r" by (rule round_mag_idem)
  ultimately show ?thesis by (simp add: is_double_nonneg)
next
  case True
  then have x0: "0 \<le> - x" by simp
  from True assms obtain q where rm: "round_mag (- x) = Some q" and r: "r = - q"
    by (auto simp: round64_def split: option.splits)
  from x0 rm have q0: "0 \<le> q" by (rule round_mag_nonneg)
  from x0 rm have qq: "round_mag q = Some q" by (rule round_mag_idem)
  show ?thesis
  proof (cases "q = 0")
    case True
    with qq r show ?thesis by (simp add: is_double_def round64_def)
  next
    case False
    with q0 have "- q < 0" by simp
    with qq r show ?thesis by (simp add: is_double_def round64_def)
  qed
qed

lemma round64_int:
  assumes "\<bar>n\<bar> < 2 ^ 53"
  shows "round64 (of_int n) = Num (of_int n)"
proof (cases "n < 0")
  case False
  with assms have "round_mag (of_int n) = Some (of_int n)" by (intro round_mag_int) simp_all
  with False show ?thesis by (simp add: round64_def)
next
  case True
  with assms have "round_mag (of_int (- n)) = Some (of_int (- n))"
    by (intro round_mag_int) simp_all
  with True show ?thesis by (simp add: round64_def)
qed

lemma round64_numeral:
  "(numeral w :: int) < 2 ^ 53 \<Longrightarrow> round64 (numeral w) = Num (numeral w)"
  using round64_int [of "numeral w"] by simp

lemma round64_0: "round64 0 = Num 0"
  using round64_int [of 0] by simp

lemma round64_1: "round64 1 = Num 1"
  using round64_int [of 1] by simp

lemma round64_eval:
  assumes "0 \<le> x" and "- 1074 \<le> k" and "x < pow2 (k + 53)"
    and "k = - 1074 \<or> pow2 (k + 52) \<le> x"
    and "of_int (rhe (x / pow2 k)) * pow2 k < pow2 1024"
  shows "round64 x = Num (of_int (rhe (x / pow2 k)) * pow2 k)"
  using assms(1,5) round_mag_eval [OF assms(1-4)] by (simp add: round64_def)

lemma rhe_near:
  assumes "\<bar>q - of_int m\<bar> < 1 / 2"
  shows "rhe q = m"
proof (cases "of_int m \<le> q")
  case True
  moreover from assms have "q < of_int m + 1" by linarith
  ultimately have "\<lfloor>q\<rfloor> = m" by (rule floor_unique)
  moreover from assms True have "q - of_int m < 1 / 2" by linarith
  ultimately show ?thesis by (simp add: rhe_def Let_def)
next
  case False
  from assms have "of_int m - 1 \<le> q" by linarith
  then have "of_int (m - 1) \<le> q" by simp
  moreover from False have "q < of_int (m - 1) + 1" by simp
  ultimately have f: "\<lfloor>q\<rfloor> = m - 1" by (rule floor_unique)
  from assms have "1 / 2 < q - (of_int m - 1)" by linarith
  then have "1 / 2 < q - of_int (m - 1)" by simp
  with f show ?thesis by (simp add: rhe_def Let_def)
qed

lemma round64_near:
  assumes "0 \<le> x" and "- 1074 \<le> k" and "x < pow2 (k + 53)"
    and "k = - 1074 \<or> pow2 (k + 52) \<le> x"
    and "\<bar>x / pow2 k - of_int m\<bar> < 1 / 2"
    and "of_int m * pow2 k < pow2 1024"
  shows "round64 x = Num (of_int m * pow2 k)"
  using assms(6) round64_eval [OF assms(1-4)] rhe_near [OF assms(5)] by simp

text \<open>The rounding error is at most half a unit in the last place.\<close>

lemma rhe_close: "\<bar>of_int (rhe q) - q\<bar> \<le> 1 / 2"
proof -
  have "of_int \<lfloor>q\<rfloor> \<le> q" and "q < of_int \<lfloor>q\<rfloor> + 1" by linarith+
  then show ?thesis by (auto simp: rhe_def Let_def)
qed

lemma round_mag_close:
  assumes "round_mag x = Some r"
  shows "\<bar>r - x\<bar> \<le> pow2 (ulpe x) / 2"
proof -
  let ?u = "pow2 (ulpe x)"
  have u: "0 < ?u" by (rule pow2_pos)
  from assms have r: "r = of_int (rhe (x / ?u)) * ?u" by (simp add: round_mag_Some)
  have "r - x = (of_int (rhe (x / ?u)) - x / ?u) * ?u" using u by (simp add: r algebra_simps)
  then have "\<bar>r - x\<bar> = \<bar>of_int (rhe (x / ?u)) - x / ?u\<bar> * ?u"
    using u by (simp add: abs_mult)
  also have "\<dots> \<le> 1 / 2 * ?u" using rhe_close [of "x / ?u"] u by (simp only: mult_le_cancel_right_pos)
  finally show ?thesis by simp
qed

lemma round64_close:
  assumes "round64 x = Num r"
  shows "\<bar>r - x\<bar> \<le> pow2 (ulpe \<bar>x\<bar>) / 2"
proof (cases "x < 0")
  case False
  with assms have "round_mag x = Some r" by (auto simp: round64_def split: option.splits)
  then have "\<bar>r - x\<bar> \<le> pow2 (ulpe x) / 2" by (rule round_mag_close)
  with False show ?thesis by simp
next
  case True
  with assms obtain q where "round_mag (- x) = Some q" and r: "r = - q"
    by (auto simp: round64_def split: option.splits)
  then have "\<bar>q - (- x)\<bar> \<le> pow2 (ulpe (- x)) / 2" using round_mag_close by blast
  moreover have "\<bar>q - (- x)\<bar> = \<bar>r - x\<bar>" using r by simp
  ultimately show ?thesis using True by simp
qed

subsection \<open>Lines of a product\<close>

lemma find_product_id:
  "List.find (\<lambda>item. cart_item.product_id item = k) c = None
     \<longleftrightarrow> k \<notin> cart_item.product_id ` set c"
  by (auto simp: find_None_iff)

lemma map_product_id_update:
  "map cart_item.product_id
     (map (\<lambda>item. if cart_item.product_id item = k
                   then item\<lparr>cart_item.quantity := f item\<rparr> else item) c)
   = map cart_item.product_id c"
  by (induction c) auto

lemma ids_update:
  "cart_item.product_id ` set (map (\<lambda>item. if cart_item.product_id item = k
                   then item\<lparr>cart_item.quantity := f item\<rparr> else item) c)
   = cart_item.product_id ` set c"
proof -
  have "set (map cart_item.product_id
               (map (\<lambda>item. if cart_item.product_id item = k
                      then item\<lparr>cart_item.quantity := f item\<rparr> else item) c))
        = set (map cart_item.product_id c)"
    by (simp only: map_product_id_update)
  then show ?thesis
    by (simp only: set_map)
qed

lemma map_absent:
  "k \<notin> cart_item.product_id ` set c \<Longrightarrow>
   map (\<lambda>item. if cart_item.product_id item = k then g item else item) c = c"
  by (rule map_idI) auto

lemma addToCart_present:
  "product.id' p \<in> cart_item.product_id ` set (cart st) \<Longrightarrow>
   cart (addToCart p st) =
     map (\<lambda>item. if cart_item.product_id item = product.id' p
                   then item\<lparr>cart_item.quantity := cart_item.quantity item + 1\<rparr>
                   else item) (cart st)"
  using find_product_id [of "product.id' p" "cart st"]
  by (auto simp: addToCart_def split: option.splits)

lemma addToCart_absent:
  "product.id' p \<notin> cart_item.product_id ` set (cart st) \<Longrightarrow>
   cart (addToCart p st) =
     cart st @ [\<lparr>cart_item.product_id = product.id' p, cart_item.product = p,
                 cart_item.quantity = 1\<rparr>]"
  using find_product_id [of "product.id' p" "cart st"]
  by (auto simp: addToCart_def split: option.splits)

lemma updateCartItem_nonpos:
  "q \<le> 0 \<Longrightarrow>
   cart (updateCartItem k q st) = filter (\<lambda>item. cart_item.product_id item \<noteq> k) (cart st)"
  by (simp add: updateCartItem_def)

lemma updateCartItem_pos:
  "0 < q \<Longrightarrow>
   cart (updateCartItem k q st) =
     map (\<lambda>item. if cart_item.product_id item = k
                   then item\<lparr>cart_item.quantity := q\<rparr> else item) (cart st)"
  by (simp add: updateCartItem_def)

lemma filter_removes:
  "k \<notin> cart_item.product_id ` set (filter (\<lambda>item. cart_item.product_id item \<noteq> k) c)"
  by auto

lemma filter_absent:
  "k \<notin> cart_item.product_id ` set c \<Longrightarrow>
   filter (\<lambda>item. cart_item.product_id item \<noteq> k) c = c"
  by (induction c) auto

lemma map_sets_quantity:
  assumes "item \<in> set (map (\<lambda>item. if cart_item.product_id item = k
                   then item\<lparr>cart_item.quantity := q\<rparr> else item) c)"
    and "cart_item.product_id item = k"
  shows "cart_item.quantity item = q"
proof -
  from assms(1) obtain x
    where x: "item = (if cart_item.product_id x = k then x\<lparr>cart_item.quantity := q\<rparr> else x)"
    unfolding set_map image_iff by blast
  show ?thesis
  proof (cases "cart_item.product_id x = k")
    case True
    with x show ?thesis by simp
  next
    case False
    with x assms(2) show ?thesis by simp
  qed
qed

subsection \<open>The invariant is kept\<close>

lemma invariant_update:
  assumes "cart_invariant c" and "\<forall>item \<in> set c. 1 \<le> f item"
  shows "cart_invariant (map (\<lambda>item. if cart_item.product_id item = k
                                     then item\<lparr>cart_item.quantity := f item\<rparr>
                                     else item) c)"
proof -
  let ?c' = "map (\<lambda>item. if cart_item.product_id item = k
                         then item\<lparr>cart_item.quantity := f item\<rparr> else item) c"
  have "map cart_item.product_id ?c' = map cart_item.product_id c"
    by (rule map_product_id_update)
  moreover have "distinct (map cart_item.product_id c)"
    using assms(1) by (simp add: cart_invariant_def)
  ultimately have d: "distinct (map cart_item.product_id ?c')"
    by (simp only:)
  have "\<forall>item \<in> set c. 1 \<le> cart_item.quantity item"
    using assms(1) by (simp add: cart_invariant_def)
  with assms(2) have "\<forall>item \<in> set ?c'. 1 \<le> cart_item.quantity item"
    by auto
  with d show ?thesis
    unfolding cart_invariant_def by (rule conjI)
qed

lemma invariant_addToCart:
  assumes "cart_invariant (cart st)"
  shows "cart_invariant (cart (addToCart p st))"
proof (cases "product.id' p \<in> cart_item.product_id ` set (cart st)")
  case True
  have "\<forall>item \<in> set (cart st). 1 \<le> cart_item.quantity item + 1"
    using assms by (auto simp: cart_invariant_def)
  with assms have "cart_invariant (map (\<lambda>item. if cart_item.product_id item = product.id' p
                   then item\<lparr>cart_item.quantity := cart_item.quantity item + 1\<rparr>
                   else item) (cart st))"
    by (rule invariant_update)
  with True show ?thesis
    by (simp only: addToCart_present)
next
  case False
  with assms show ?thesis
    by (simp add: addToCart_absent cart_invariant_def)
qed

lemma invariant_updateCartItem:
  assumes "cart_invariant (cart st)"
  shows "cart_invariant (cart (updateCartItem k q st))"
proof (cases "q \<le> 0")
  case True
  with assms show ?thesis
    by (auto simp: updateCartItem_nonpos cart_invariant_def distinct_map_filter)
next
  case False
  then have "\<forall>item \<in> set (cart st). 1 \<le> q"
    by simp
  with assms have "cart_invariant (map (\<lambda>item. if cart_item.product_id item = k
                   then item\<lparr>cart_item.quantity := q\<rparr> else item) (cart st))"
    by (rule invariant_update)
  with False show ?thesis
    by (simp only: updateCartItem_pos not_le)
qed

lemma invariant_processTransaction:
  assumes "cart_invariant (cart st)"
  shows "cart_invariant (cart (new_state (processTransaction post refreshed st)))"
  using assms
  by (simp add: processTransaction_def Let_def cart_invariant_def split: response.splits)

text \<open>
  Claim C4. From a cart with at most one line for each product and every quantity at
  least 1, each operation that changes the cart gives such a cart again: adding a
  product (\<open>addToCart\<close>), setting a quantity or removing a line
  (\<open>updateCartItem\<close>, which removes when the quantity is not positive), and the
  emptying of the cart, which happens in \<open>processTransaction\<close> when the server
  accepts the transaction.
\<close>

theorem cart_invariant_preserved:
  assumes "cart_invariant (cart st)"
  shows "cart_invariant (cart (addToCart p st))
       \<and> cart_invariant (cart (updateCartItem productId q st))
       \<and> cart_invariant (cart (new_state (processTransaction post refreshed st)))"
  using assms
  by (simp add: invariant_addToCart invariant_updateCartItem invariant_processTransaction)

theorem cart_invariant_preserved_witness:
  "cart_invariant (cart session)
   \<and> cart_invariant (cart (addToCart productA session))
   \<and> cart_invariant (cart (updateCartItem ''B'' 0 session))
   \<and> cart_invariant (cart (new_state (processTransaction (\<lambda>r. Resolved) None session)))"
proof -
  have h: "cart_invariant (cart session)"
    by (simp add: session_def cart_invariant_def lineA_def lineB_def)
  from h cart_invariant_preserved [OF h] show ?thesis
    by (rule conjI)
qed

subsection \<open>Adding a product\<close>

lemma addToCart_addLine: "cart (addToCart p st) = addLine p 1 (cart st)"
proof (cases "product.id' p \<in> cart_item.product_id ` set (cart st)")
  case True
  then show ?thesis
    by (simp add: addToCart_present addLine_def)
next
  case False
  then show ?thesis
    by (simp add: addToCart_absent addLine_def)
qed

lemma addLine_addLine:
  assumes "0 < q" and "0 < r"
  shows "addLine p r (addLine p q c) = addLine p (q + r) c"
proof (cases "product.id' p \<in> cart_item.product_id ` set c")
  case True
  with assms show ?thesis
    by (simp add: addLine_def ids_update add.assoc del: set_map if_image_distrib)
next
  case False
  with assms show ?thesis
    by (simp add: addLine_def map_absent)
qed

text \<open>
  Claim C5. \<open>addToCart\<close> increments the quantity of the line of the product when
  the cart has one, and appends a new line with quantity 1 otherwise; it is \<open>addLine\<close>
  with quantity 1, and adding a product three times gives the cart that adding it once
  with quantity 3 gives.
\<close>

theorem addToCart_three_times:
  "cart (addToCart p (addToCart p (addToCart p st))) = addLine p 3 (cart st)
   \<and> cart (addToCart p st) = addLine p 1 (cart st)
   \<and> (product.id' p \<in> cart_item.product_id ` set (cart st) \<longrightarrow>
        cart (addToCart p st) =
          map (\<lambda>item. if cart_item.product_id item = product.id' p
                        then item\<lparr>cart_item.quantity := cart_item.quantity item + 1\<rparr>
                        else item) (cart st))
   \<and> (product.id' p \<notin> cart_item.product_id ` set (cart st) \<longrightarrow>
        cart (addToCart p st) =
          cart st @ [\<lparr>cart_item.product_id = product.id' p, cart_item.product = p,
                      cart_item.quantity = 1\<rparr>])"
proof -
  have "cart (addToCart p (addToCart p (addToCart p st)))
          = addLine p 1 (addLine p 1 (addLine p 1 (cart st)))"
    by (simp only: addToCart_addLine)
  also have "\<dots> = addLine p 3 (cart st)"
    by (simp add: addLine_addLine)
  finally show ?thesis
    using addToCart_present [of p st] addToCart_absent [of p st]
    by (simp add: addToCart_addLine)
qed

theorem addToCart_three_times_witness:
  "cart (addToCart productA (addToCart productA (addToCart productA initial)))
     = [\<lparr>cart_item.product_id = ''A'', cart_item.product = productA,
         cart_item.quantity = 3\<rparr>]
   \<and> cart (addToCart productA session)
     = [\<lparr>cart_item.product_id = ''A'', cart_item.product = productA,
         cart_item.quantity = 3\<rparr>, lineB]"
proof -
  have absent: "product.id' productA \<notin> cart_item.product_id ` set (cart initial)"
    by (simp add: initial_def)
  have present: "product.id' productA \<in> cart_item.product_id ` set (cart session)"
    by (simp add: session_def lineA_def productA_def)
  have "cart (addToCart productA (addToCart productA (addToCart productA initial)))
          = addLine productA 3 (cart initial)"
    using addToCart_three_times [where p = productA and st = initial] by (rule conjunct1)
  with absent have one: "cart (addToCart productA (addToCart productA (addToCart productA initial)))
     = [\<lparr>cart_item.product_id = ''A'', cart_item.product = productA,
         cart_item.quantity = 3\<rparr>]"
    by (simp add: addLine_def initial_def productA_def)
  have "cart (addToCart productA session) =
          map (\<lambda>item. if cart_item.product_id item = product.id' productA
                        then item\<lparr>cart_item.quantity := cart_item.quantity item + 1\<rparr>
                        else item) (cart session)"
    using addToCart_three_times [where p = productA and st = session] present by blast
  then have two: "cart (addToCart productA session)
     = [\<lparr>cart_item.product_id = ''A'', cart_item.product = productA,
         cart_item.quantity = 3\<rparr>, lineB]"
    by (simp add: session_def lineA_def lineB_def productA_def)
  from one two show ?thesis
    by (rule conjI)
qed

subsection \<open>Setting a quantity\<close>

text \<open>
  Claim C6. \<open>updateCartItem\<close> with a quantity that is not positive removes the line
  of the product, whatever the quantity; with a positive quantity it sets the line to
  that quantity and leaves the other lines as they are; removing the line of a product
  that has none leaves the state as it is.
\<close>

theorem updateCartItem_sets_or_removes:
  "(q \<le> 0 \<longrightarrow>
      cart (updateCartItem productId q st)
        = filter (\<lambda>item. cart_item.product_id item \<noteq> productId) (cart st)
      \<and> productId \<notin> cart_item.product_id ` set (cart (updateCartItem productId q st)))
   \<and> (0 < q \<longrightarrow>
      cart (updateCartItem productId q st)
        = map (\<lambda>item. if cart_item.product_id item = productId
                        then item\<lparr>cart_item.quantity := q\<rparr> else item) (cart st)
      \<and> (\<forall>item \<in> set (cart (updateCartItem productId q st)).
            cart_item.product_id item = productId \<longrightarrow> cart_item.quantity item = q))
   \<and> (q \<le> 0 \<and> productId \<notin> cart_item.product_id ` set (cart st) \<longrightarrow>
      updateCartItem productId q st = st)"
proof (intro conjI impI ballI)
  assume "q \<le> 0"
  then show "cart (updateCartItem productId q st)
        = filter (\<lambda>item. cart_item.product_id item \<noteq> productId) (cart st)"
    by (rule updateCartItem_nonpos)
  then show "productId \<notin> cart_item.product_id ` set (cart (updateCartItem productId q st))"
    by (simp only: filter_removes not_False_eq_True)
next
  assume "0 < q"
  then show "cart (updateCartItem productId q st)
        = map (\<lambda>item. if cart_item.product_id item = productId
                        then item\<lparr>cart_item.quantity := q\<rparr> else item) (cart st)"
    by (rule updateCartItem_pos)
next
  fix item
  assume "0 < q" and "item \<in> set (cart (updateCartItem productId q st))"
    and "cart_item.product_id item = productId"
  then show "cart_item.quantity item = q"
    by (simp only: updateCartItem_pos map_sets_quantity)
next
  assume "q \<le> 0 \<and> productId \<notin> cart_item.product_id ` set (cart st)"
  then show "updateCartItem productId q st = st"
    by (simp add: updateCartItem_def filter_absent)
qed

theorem updateCartItem_sets_or_removes_witness:
  "cart (updateCartItem ''A'' 0 session) = [lineB]
   \<and> cart (updateCartItem ''A'' (- 5) session) = [lineB]
   \<and> cart (updateCartItem ''A'' 7 session) = [lineA\<lparr>cart_item.quantity := 7\<rparr>, lineB]
   \<and> updateCartItem ''C'' 0 session = session"
proof -
  have c: "cart session = [lineA, lineB]"
    by (simp add: session_def)
  have a: "cart_item.product_id lineA = ''A''" and b: "cart_item.product_id lineB = ''B''"
    by (simp_all add: lineA_def lineB_def)
  have "cart (updateCartItem ''A'' 0 session) = [lineB]"
    using updateCartItem_sets_or_removes [where q = 0 and productId = "''A''" and st = session]
    by (simp add: c a b)
  moreover have "cart (updateCartItem ''A'' (- 5) session) = [lineB]"
    using updateCartItem_sets_or_removes [where q = "- 5" and productId = "''A''" and st = session]
    by (simp add: c a b)
  moreover have "cart (updateCartItem ''A'' 7 session) = [lineA\<lparr>cart_item.quantity := 7\<rparr>, lineB]"
    using updateCartItem_sets_or_removes [where q = 7 and productId = "''A''" and st = session]
    by (simp add: c a b)
  moreover have "updateCartItem ''C'' 0 session = session"
    using updateCartItem_sets_or_removes [where q = 0 and productId = "''C''" and st = session]
    by (simp add: c a b)
  ultimately show ?thesis
    by (intro conjI)
qed

text \<open>
  Claim C9. \<open>updateCartItem\<close> with a positive quantity for a product that has no
  line leaves the state as it is; with any quantity, no product gets a line that had
  none and the cart does not get longer.
\<close>

theorem updateCartItem_never_inserts:
  "(0 < q \<and> productId \<notin> cart_item.product_id ` set (cart st) \<longrightarrow>
      updateCartItem productId q st = st)
   \<and> cart_item.product_id ` set (cart (updateCartItem productId q st))
        \<subseteq> cart_item.product_id ` set (cart st)
   \<and> length (cart (updateCartItem productId q st)) \<le> length (cart st)"
proof -
  have "0 < q \<and> productId \<notin> cart_item.product_id ` set (cart st) \<longrightarrow>
      updateCartItem productId q st = st"
    by (simp add: updateCartItem_def map_absent)
  moreover have "cart_item.product_id ` set (cart (updateCartItem productId q st))
        \<subseteq> cart_item.product_id ` set (cart st)"
  proof (cases "q \<le> 0")
    case True
    then show ?thesis
      by (auto simp: updateCartItem_nonpos)
  next
    case False
    then show ?thesis
      by (simp add: updateCartItem_pos ids_update del: set_map if_image_distrib)
  qed
  moreover have "length (cart (updateCartItem productId q st)) \<le> length (cart st)"
    by (simp add: updateCartItem_def)
  ultimately show ?thesis
    by (intro conjI)
qed

theorem updateCartItem_never_inserts_witness:
  "updateCartItem ''C'' 4 session = session
   \<and> cart_item.product_id ` set (cart (updateCartItem ''C'' 4 session))
        \<subseteq> cart_item.product_id ` set (cart session)
   \<and> length (cart (updateCartItem ''C'' 4 session)) \<le> length (cart session)"
  using updateCartItem_never_inserts [where q = 4 and productId = "''C''" and st = session]
  by (simp add: session_def lineA_def lineB_def)

subsection \<open>Prices\<close>

text \<open>
  Claim C2. \<open>getPrice\<close> returns one of the three prices of the product: the sales
  price for the customer type \<open>sales\<close>, the workshop price for \<open>bengkel\<close>, and
  the regular price for every other customer type, known or not.
\<close>

theorem getPrice_tier:
  "getPrice p ct \<in> {price_regular p, price_sales p, price_bengkel p}
   \<and> (ct = ''sales'' \<longrightarrow> getPrice p ct = price_sales p)
   \<and> (ct = ''bengkel'' \<longrightarrow> getPrice p ct = price_bengkel p)
   \<and> (ct \<noteq> ''sales'' \<and> ct \<noteq> ''bengkel'' \<longrightarrow> getPrice p ct = price_regular p)"
  by (simp add: getPrice_def)

theorem getPrice_tier_witness:
  "getPrice productA ''sales'' = 9000
   \<and> getPrice productA ''bengkel'' = 8500
   \<and> getPrice productA ''regular'' = 10000
   \<and> getPrice productA ''grosir'' = 10000"
  using getPrice_tier [where p = productA and ct = "''sales''"]
        getPrice_tier [where p = productA and ct = "''bengkel''"]
        getPrice_tier [where p = productA and ct = "''regular''"]
        getPrice_tier [where p = productA and ct = "''grosir''"]
  by (simp add: productA_def)

subsection \<open>The operators\<close>

lemma js_add_Num:
  "js_add a b = Num r \<Longrightarrow> \<exists>x y. a = Num x \<and> b = Num y \<and> round64 (x + y) = Num r"
  by (cases a; cases b) simp_all

lemma js_mul_Num:
  "js_mul a b = Num r \<Longrightarrow> \<exists>x y. a = Num x \<and> b = Num y \<and> round64 (x * y) = Num r"
  by (cases a; cases b) (simp_all split: if_splits)



lemma is_double_0: "is_double 0"
  by (simp add: is_double_def round64_0)

lemma is_double_1: "is_double 1"
  by (simp add: is_double_def round64_1)

subsection \<open>The builtin \<open>parseFloat\<close>\<close>

lemmas parseFloat_defs = parseFloat_def stripSign_def unsignedDecimal_def isWhiteSpace_def
  isWhiteSpace2_def isWhiteSpace3_def isDigit_def decimalValue_def digitValue_def
  exponentPart_def scale10_def

lemma parseFloat_empty: "parseFloat [] = NaN"
  by (simp add: parseFloat_defs)

lemma parseFloat_Num_nonempty: "parseFloat s = Num a \<Longrightarrow> s \<noteq> []"
  using parseFloat_empty by auto


subsection \<open>The subtotal\<close>

lemma calculateTotal_fields:
  "subtotal (calculateTotal st) = foldl (addLineTotal (selectedCustomerType st)) (Num 0) (cart st)"
  "discountAmount (calculateTotal st)
     = js_mul (subtotal (calculateTotal st)) (js_div (Num (discountPercentage st)) (Num 100))"
  "total (calculateTotal st)
     = js_sub (subtotal (calculateTotal st)) (discountAmount (calculateTotal st))"
  by (simp_all add: calculateTotal_def Let_def)

lemma addLineTotal_Num:
  assumes "addLineTotal ct acc item = Num r"
  shows "\<exists>a y. acc = Num a
           \<and> round64 (getPrice (cart_item.product item) ct * of_int (cart_item.quantity item)) = Num y
           \<and> round64 (a + y) = Num r"
proof -
  from assms obtain a y where "acc = Num a"
    and m: "js_mul (Num (getPrice (cart_item.product item) ct))
                   (Num (of_int (cart_item.quantity item))) = Num y"
    and "round64 (a + y) = Num r"
    using js_add_Num unfolding addLineTotal_def by blast
  moreover from m have "round64 (getPrice (cart_item.product item) ct
                                  * of_int (cart_item.quantity item)) = Num y"
    by simp
  ultimately show ?thesis by blast
qed

lemma fold_Num:
  "foldl (addLineTotal ct) acc c = Num s \<Longrightarrow> \<exists>a. acc = Num a"
proof (induction c arbitrary: acc)
  case Nil
  then show ?case by simp
next
  case (Cons item c)
  then have "\<exists>a. addLineTotal ct acc item = Num a" by simp
  then show ?case using addLineTotal_Num by blast
qed

lemma fold_double:
  "foldl (addLineTotal ct) acc c = Num s \<Longrightarrow> (\<forall>a. acc = Num a \<longrightarrow> is_double a) \<Longrightarrow> is_double s"
proof (induction c arbitrary: acc)
  case Nil
  then show ?case by simp
next
  case (Cons item c)
  have "\<forall>a. addLineTotal ct acc item = Num a \<longrightarrow> is_double a"
    using addLineTotal_Num round64_double by blast
  moreover from Cons.prems(1) have "foldl (addLineTotal ct) (addLineTotal ct acc item) c = Num s"
    by simp
  ultimately show ?case by (rule Cons.IH [rotated])
qed

lemma fold_nonneg:
  "\<forall>item \<in> set c. 0 \<le> getPrice (cart_item.product item) ct \<and> 0 \<le> cart_item.quantity item \<Longrightarrow>
   foldl (addLineTotal ct) (Num a) c = Num s \<Longrightarrow> 0 \<le> a \<Longrightarrow> 0 \<le> s"
proof (induction c arbitrary: a)
  case Nil
  then show ?case by simp
next
  case (Cons item c)
  from Cons.prems(2) have f: "foldl (addLineTotal ct) (addLineTotal ct (Num a) item) c = Num s"
    by simp
  then obtain a' where a': "addLineTotal ct (Num a) item = Num a'"
    using fold_Num by blast
  then obtain y
    where y: "round64 (getPrice (cart_item.product item) ct * of_int (cart_item.quantity item)) = Num y"
      and r: "round64 (a + y) = Num a'"
    using addLineTotal_Num by blast
  from Cons.prems(1) have "0 \<le> getPrice (cart_item.product item) ct * of_int (cart_item.quantity item)"
    by simp
  then have "0 \<le> y" using y by (rule round64_nonneg)
  with Cons.prems(3) have "0 \<le> a + y" by simp
  then have "0 \<le> a'" using r by (rule round64_nonneg)
  moreover from Cons.prems(1) have "\<forall>item \<in> set c. 0 \<le> getPrice (cart_item.product item) ct
      \<and> 0 \<le> cart_item.quantity item" by simp
  moreover from f a' have "foldl (addLineTotal ct) (Num a') c = Num s" by simp
  ultimately show ?case using Cons.IH by blast
qed

lemma subtotal_double:
  "subtotal (calculateTotal st) = Num s \<Longrightarrow> is_double s"
  using fold_double [of "selectedCustomerType st" "Num 0" "cart st" s] is_double_0
  by (simp add: calculateTotal_fields)

lemma getPrice_nonneg:
  "0 \<le> price_regular p \<Longrightarrow> 0 \<le> price_sales p \<Longrightarrow> 0 \<le> price_bengkel p \<Longrightarrow> 0 \<le> getPrice p ct"
  by (simp add: getPrice_def)

lemma subtotal_nonneg:
  assumes "in_range st" and "subtotal (calculateTotal st) = Num s"
  shows "0 \<le> s"
proof -
  from assms(1) have "\<forall>item \<in> set (cart st).
      0 \<le> getPrice (cart_item.product item) (selectedCustomerType st) \<and> 0 \<le> cart_item.quantity item"
    by (auto simp: in_range_def getPrice_nonneg)
  moreover from assms(2)
  have "foldl (addLineTotal (selectedCustomerType st)) (Num 0) (cart st) = Num s"
    by (simp add: calculateTotal_fields)
  ultimately show ?thesis using fold_nonneg [of "cart st" "selectedCustomerType st" 0 s] by simp
qed

lemma discountPercentage_range:
  assumes "in_range st"
  shows "0 \<le> discountPercentage st \<and> discountPercentage st \<le> 100"
proof (cases "List.find (\<lambda>ct. customerType.name ct = selectedCustomerType st) (customerTypes st)")
  case None
  then show ?thesis by (simp add: discountPercentage_def)
next
  case (Some ct)
  then have "ct \<in> set (customerTypes st)" by (auto simp: find_Some_iff in_set_conv_nth)
  with assms have "0 \<le> discount_percentage ct \<and> discount_percentage ct \<le> 100"
    by (simp add: in_range_def)
  with Some show ?thesis by (simp add: discountPercentage_def)
qed

lemma discount_bounds:
  assumes "is_double s" and "0 \<le> s" and "0 \<le> p" and "p \<le> 100"
  shows "\<exists>d t. js_mul (Num s) (js_div (Num p) (Num 100)) = Num d
             \<and> js_sub (Num s) (Num d) = Num t
             \<and> 0 \<le> d \<and> d \<le> s \<and> 0 \<le> t \<and> t \<le> s"
proof -
  from assms(3,4) have "0 \<le> p / 100" and "p / 100 \<le> 1" by simp_all
  then obtain \<rho> where \<rho>: "round64 (p / 100) = Num \<rho>" "0 \<le> \<rho>" "\<rho> \<le> 1"
    using round64_le is_double_1 by blast
  from \<rho>(2) assms(2) have "0 \<le> s * \<rho>" by (rule mult_nonneg_nonneg [rotated])
  moreover from \<rho>(3) assms(2) have "s * \<rho> \<le> s * 1" by (rule mult_left_mono)
  then have "s * \<rho> \<le> s" by simp
  ultimately obtain d where d: "round64 (s * \<rho>) = Num d" "0 \<le> d" "d \<le> s"
    using round64_le assms(1) by blast
  from d(2,3) have "0 \<le> s - d" and "s - d \<le> s" by simp_all
  then obtain t where t: "round64 (s - d) = Num t" "0 \<le> t" "t \<le> s"
    using round64_le assms(1) by blast
  have "js_mul (Num s) (js_div (Num p) (Num 100)) = Num d" by (simp add: \<rho>(1) d(1))
  moreover have "js_sub (Num s) (Num d) = Num t" by (simp add: js_sub_def t(1))
  ultimately show ?thesis using d(2,3) t(2,3) by blast
qed


subsection \<open>Values of the examples\<close>

lemma round64_tenth: "round64 (1 / 10) = Num (3602879701896397 / 36028797018963968)"
  using round64_near [of "1 / 10" "- 56" 7205759403792794] by (simp add: pow2_def)

lemma round64_57: "round64 (57 / 100) = Num (5134103575202365 / 9007199254740992)"
  using round64_near [of "57 / 100" "- 53" 5134103575202365] by (simp add: pow2_def)

lemma round64_2300:
  "round64 (23000 * (3602879701896397 / 36028797018963968)) = Num 2300"
  using round64_near [of "23000 * (3602879701896397 / 36028797018963968)" "- 41"
      "2300 * 2 ^ 41"]
  by (simp add: pow2_def)

lemma round64_855:
  "round64 (1500 * (5134103575202365 / 9007199254740992))
     = Num (7520659533987839 / 8796093022208)"
  using round64_near [of "1500 * (5134103575202365 / 9007199254740992)" "- 43" 7520659533987839]
  by (simp add: pow2_def)

lemma round64_645:
  "round64 (1500 - 7520659533987839 / 8796093022208) = Num (5673479999324161 / 8796093022208)"
  using round64_near [of "1500 - 7520659533987839 / 8796093022208" "- 43" 5673479999324161]
  by (simp add: pow2_def)

lemma round64_overflow: "round64 (2 ^ 1023 * 2) = PosInfinity"
  using round_mag_eval [of "2 ^ 1023 * 2" 972] by (simp add: round64_def pow2_def rhe_def)

lemma parse25000: "parseFloat ''25000'' = Num 25000"
  by (simp add: parseFloat_defs round64_numeral)

lemma parse15000: "parseFloat ''15000'' = Num 15000"
  by (simp add: parseFloat_defs round64_numeral)

lemma cart_session: "cart session = [lineA, lineB]"
  by (simp add: session_def)

lemma subtotal_regular: "subtotal (calculateTotal session) = Num 25000"
  by (simp add: calculateTotal_fields addLineTotal_def session_def initial_def
      lineA_def lineB_def productA_def productB_def getPrice_def round64_numeral)

lemma subtotal_sales: "subtotal (calculateTotal sales_session) = Num 23000"
  by (simp add: calculateTotal_fields addLineTotal_def sales_session_def session_def initial_def
      lineA_def lineB_def productA_def productB_def getPrice_def round64_numeral)

lemma percentage_regular: "discountPercentage session = 0"
  by (simp add: discountPercentage_def session_def initial_def regularType_def)

lemma percentage_sales: "discountPercentage sales_session = 10"
  by (simp add: discountPercentage_def sales_session_def session_def initial_def
      regularType_def salesType_def)

lemma discount_regular: "discountAmount (calculateTotal session) = Num 0"
  by (simp add: calculateTotal_fields(2) subtotal_regular percentage_regular round64_0)

lemma total_regular: "total (calculateTotal session) = Num 25000"
  by (simp add: calculateTotal_fields(3) subtotal_regular discount_regular js_sub_def
      round64_numeral)

lemma discount_sales: "discountAmount (calculateTotal sales_session) = Num 2300"
  using round64_2300
  by (simp add: calculateTotal_fields(2) subtotal_sales percentage_sales round64_tenth)

lemma total_sales: "total (calculateTotal sales_session) = Num 20700"
  by (simp add: calculateTotal_fields(3) subtotal_sales discount_sales js_sub_def
      round64_numeral)

lemma calculateTotal_paymentAmount:
  "calculateTotal (st\<lparr>paymentAmount := s\<rparr>) = calculateTotal st"
  by (simp add: calculateTotal_def discountPercentage_def)

lemma cart_rounding:
  "cart rounding = [\<lparr>cart_item.product_id = ''C'', cart_item.product = productC,
                     cart_item.quantity = 1\<rparr>]"
  by (simp add: rounding_def addToCart_def initial_def productC_def)

lemma subtotal_rounding: "subtotal (calculateTotal rounding) = Num 1500"
proof -
  have "selectedCustomerType rounding = ''bengkel''"
    by (simp add: rounding_def addToCart_def initial_def)
  then show ?thesis
    by (simp add: calculateTotal_fields(1) cart_rounding addLineTotal_def productC_def
        getPrice_def round64_numeral)
qed

lemma percentage_rounding: "discountPercentage rounding = 57"
  by (simp add: discountPercentage_def rounding_def addToCart_def initial_def
      regularType_def bengkelType_def)

lemma discount_rounding:
  "discountAmount (calculateTotal rounding) = Num (7520659533987839 / 8796093022208)"
  using round64_855
  by (simp add: calculateTotal_fields(2) subtotal_rounding percentage_rounding round64_57)

lemma total_rounding:
  "total (calculateTotal rounding) = Num (5673479999324161 / 8796093022208)"
  using round64_645
  by (simp add: calculateTotal_fields(3) subtotal_rounding discount_rounding js_sub_def)

lemma cart_overflowing:
  "cart overflowing = [\<lparr>cart_item.product_id = ''H'', cart_item.product = productH,
                        cart_item.quantity = 2\<rparr>]"
  by (simp add: overflowing_def addToCart_def initial_def productH_def)

lemma subtotal_overflowing: "subtotal (calculateTotal overflowing) = PosInfinity"
proof -
  have "selectedCustomerType overflowing = ''regular''"
    by (simp add: overflowing_def addToCart_def initial_def)
  moreover have "price_regular productH = 2 ^ 1023" by (simp add: productH_def)
  ultimately show ?thesis
    using round64_overflow
    by (simp add: calculateTotal_fields(1) cart_overflowing addLineTotal_def getPrice_def)
qed


lemma in_range_session: "in_range session"
  by (simp add: in_range_def session_def lineA_def lineB_def productA_def productB_def
      regularType_def salesType_def)

lemma in_range_sales: "in_range sales_session"
  using in_range_session by (simp add: in_range_def sales_session_def)


lemma in_range_rounding: "in_range rounding"
  by (simp add: in_range_def cart_rounding productC_def)
     (simp add: rounding_def addToCart_def initial_def regularType_def bengkelType_def)

lemma in_range_overflowing: "in_range overflowing"
  by (simp add: in_range_def cart_overflowing productH_def)
     (simp add: overflowing_def addToCart_def initial_def)

lemma in_range_overflowing_sales: "in_range overflowing_sales"
  using in_range_overflowing
  by (simp add: in_range_def overflowing_sales_def regularType_def salesType_def)

lemma subtotal_overflowing_sales: "subtotal (calculateTotal overflowing_sales) = PosInfinity"
proof -
  have "cart overflowing_sales = cart overflowing"
    and "selectedCustomerType overflowing_sales = ''sales''"
    by (simp_all add: overflowing_sales_def)
  moreover have "price_sales productH = 2 ^ 1023" by (simp add: productH_def)
  ultimately show ?thesis
    using round64_overflow
    by (simp add: calculateTotal_fields(1) cart_overflowing addLineTotal_def getPrice_def)
qed

lemma totals_overflowing_sales:
  "discountAmount (calculateTotal overflowing_sales) = PosInfinity"
  "total (calculateTotal overflowing_sales) = NaN"
proof -
  have "discountPercentage overflowing_sales = 10"
    by (simp add: discountPercentage_def overflowing_sales_def regularType_def salesType_def)
  then show d: "discountAmount (calculateTotal overflowing_sales) = PosInfinity"
    by (simp add: calculateTotal_fields(2) subtotal_overflowing_sales round64_tenth)
  show "total (calculateTotal overflowing_sales) = NaN"
    by (simp add: calculateTotal_fields(3) subtotal_overflowing_sales d js_sub_def)
qed

subsection \<open>The totals\<close>

text \<open>
  Claim C1, as the specification states it, does not hold of \<open>calculateTotal\<close>. With
  one unit at 1500, a discount of 57 percent and no manual discount, the claimed
  discount amount is \<open>1500 * 57 / 100 = 855\<close> and the claimed total 645; the component
  computes \<open>1500 * (57 / 100)\<close> in binary64, which is 854.9999999999999, and the total
  645.0000000000001. With two units at \<open>2 ^ 1023\<close> and a discount of 10 percent the
  subtotal and the discount amount are \<open>Infinity\<close> and the total is \<open>NaN\<close>, which
  is not at most the subtotal.
\<close>

theorem calculateTotal_rounding_counterexample:
  "in_range rounding \<and> manualDiscountType rounding = ''none''
   \<and> subtotal (calculateTotal rounding) = Num 1500
   \<and> claimed_discountAmount 1500 rounding = 855
   \<and> discountAmount (calculateTotal rounding) = Num (7520659533987839 / 8796093022208)
   \<and> discountAmount (calculateTotal rounding) \<noteq> Num (claimed_discountAmount 1500 rounding)
   \<and> total (calculateTotal rounding) = Num (5673479999324161 / 8796093022208)
   \<and> total (calculateTotal rounding)
       \<noteq> Num (max 0 (1500 - claimed_discountAmount 1500 rounding))
   \<and> in_range overflowing_sales
   \<and> subtotal (calculateTotal overflowing_sales) = PosInfinity
   \<and> discountAmount (calculateTotal overflowing_sales) = PosInfinity
   \<and> total (calculateTotal overflowing_sales) = NaN"
proof -
  have m: "manualDiscountType rounding = ''none''"
    by (simp add: rounding_def addToCart_def initial_def)
  then have c: "claimed_discountAmount 1500 rounding = 855"
    by (simp add: claimed_discountAmount_def Let_def percentage_rounding)
  show ?thesis
    by (simp add: in_range_rounding m c subtotal_rounding discount_rounding total_rounding
        in_range_overflowing_sales subtotal_overflowing_sales totals_overflowing_sales)
qed

lemma total_bounds:
  assumes "in_range st" and "subtotal (calculateTotal st) = Num s"
  shows "0 \<le> s \<and> (\<exists>d t. discountAmount (calculateTotal st) = Num d
                        \<and> total (calculateTotal st) = Num t
                        \<and> 0 \<le> d \<and> d \<le> s \<and> 0 \<le> t \<and> t \<le> s)"
proof -
  from assms have s0: "0 \<le> s" by (rule subtotal_nonneg)
  from assms(2) have "is_double s" by (rule subtotal_double)
  moreover from assms(1) have "0 \<le> discountPercentage st" "discountPercentage st \<le> 100"
    using discountPercentage_range by simp_all
  ultimately obtain d t
    where "js_mul (Num s) (js_div (Num (discountPercentage st)) (Num 100)) = Num d"
      and "js_sub (Num s) (Num d) = Num t"
      and "0 \<le> d" "d \<le> s" "0 \<le> t" "t \<le> s"
    using discount_bounds [OF _ s0] by blast
  with assms(2) have "discountAmount (calculateTotal st) = Num d \<and> total (calculateTotal st) = Num t
      \<and> 0 \<le> d \<and> d \<le> s \<and> 0 \<le> t \<and> t \<le> s"
    by (simp add: calculateTotal_fields(2,3))
  with s0 show ?thesis by blast
qed

text \<open>
  Claim C1, amended. The totals do not depend on the manual discount, which the
  component never sets. The subtotal is the binary64 sum of price times quantity over
  the lines, the discount amount is the binary64 product
  \<open>subtotal * (discountPercentage / 100)\<close>, the tier discount up to rounding, and the
  total is the binary64 difference of the subtotal and the discount amount. For data
  in its ranges and a finite subtotal, the subtotal is not negative, the discount amount
  is between 0 and the subtotal, and the total is between 0 and the subtotal, so that
  clamping it at 0 changes nothing.
\<close>

theorem calculateTotal_tier_only:
  "calculateTotal (st\<lparr>manualDiscountType := m, manualDiscountValue := v\<rparr>) = calculateTotal st
   \<and> subtotal (calculateTotal st)
       = foldl (addLineTotal (selectedCustomerType st)) (Num 0) (cart st)
   \<and> discountAmount (calculateTotal st)
       = js_mul (subtotal (calculateTotal st)) (js_div (Num (discountPercentage st)) (Num 100))
   \<and> total (calculateTotal st)
       = js_sub (subtotal (calculateTotal st)) (discountAmount (calculateTotal st))
   \<and> (in_range st \<and> subtotal (calculateTotal st) = Num s \<longrightarrow>
        0 \<le> s \<and> (\<exists>d t. discountAmount (calculateTotal st) = Num d
                        \<and> total (calculateTotal st) = Num t
                        \<and> 0 \<le> d \<and> d \<le> s \<and> 0 \<le> t \<and> t \<le> s))"
proof (intro conjI impI)
  show "calculateTotal (st\<lparr>manualDiscountType := m, manualDiscountValue := v\<rparr>) = calculateTotal st"
    by (simp add: calculateTotal_def discountPercentage_def)
  show "subtotal (calculateTotal st)
       = foldl (addLineTotal (selectedCustomerType st)) (Num 0) (cart st)"
    by (rule calculateTotal_fields)
  show "discountAmount (calculateTotal st)
       = js_mul (subtotal (calculateTotal st)) (js_div (Num (discountPercentage st)) (Num 100))"
    by (rule calculateTotal_fields)
  show "total (calculateTotal st)
       = js_sub (subtotal (calculateTotal st)) (discountAmount (calculateTotal st))"
    by (rule calculateTotal_fields)
  assume h: "in_range st \<and> subtotal (calculateTotal st) = Num s"
  then show "0 \<le> s" using total_bounds by blast
  from h show "\<exists>d t. discountAmount (calculateTotal st) = Num d
                        \<and> total (calculateTotal st) = Num t
                        \<and> 0 \<le> d \<and> d \<le> s \<and> 0 \<le> t \<and> t \<le> s"
    using total_bounds by blast
qed

theorem calculateTotal_tier_only_witness:
  "in_range sales_session
   \<and> subtotal (calculateTotal sales_session) = Num 23000
   \<and> discountAmount (calculateTotal sales_session) = Num 2300
   \<and> total (calculateTotal sales_session) = Num 20700
   \<and> (\<exists>d t. discountAmount (calculateTotal sales_session) = Num d
             \<and> total (calculateTotal sales_session) = Num t
             \<and> 0 \<le> d \<and> d \<le> 23000 \<and> 0 \<le> t \<and> t \<le> 23000)"
proof -
  have h: "in_range sales_session \<and> subtotal (calculateTotal sales_session) = Num 23000"
    using in_range_sales subtotal_sales by (rule conjI)
  with calculateTotal_tier_only [where st = sales_session and s = 23000]
  have "\<exists>d t. discountAmount (calculateTotal sales_session) = Num d
             \<and> total (calculateTotal sales_session) = Num t
             \<and> 0 \<le> d \<and> d \<le> 23000 \<and> 0 \<le> t \<and> t \<le> 23000"
    by blast
  with h discount_sales total_sales show ?thesis
    by blast
qed


subsection \<open>An unknown customer type\<close>

lemma discountPercentage_unknown:
  "selectedCustomerType st \<notin> customerType.name ` set (customerTypes st) \<Longrightarrow>
   discountPercentage st = 0"
proof -
  assume "selectedCustomerType st \<notin> customerType.name ` set (customerTypes st)"
  then have "List.find (\<lambda>ct. customerType.name ct = selectedCustomerType st) (customerTypes st)
               = None"
    by (force simp: find_None_iff)
  then show ?thesis
    by (simp add: discountPercentage_def)
qed

text \<open>
  Claim C10, as stated, does not hold when the subtotal overflows: with two units at
  \<open>2 ^ 1023\<close> and no customer type loaded, the percentage is 0, the subtotal is
  \<open>Infinity\<close>, and the discount amount \<open>Infinity * 0\<close> and the total are \<open>NaN\<close>.
\<close>

theorem unknown_customer_type_counterexample:
  "selectedCustomerType overflowing \<notin> customerType.name ` set (customerTypes overflowing)
   \<and> in_range overflowing
   \<and> discountPercentage overflowing = 0
   \<and> subtotal (calculateTotal overflowing) = PosInfinity
   \<and> discountAmount (calculateTotal overflowing) = NaN
   \<and> discountAmount (calculateTotal overflowing) \<noteq> Num 0
   \<and> total (calculateTotal overflowing) = NaN
   \<and> total (calculateTotal overflowing) \<noteq> subtotal (calculateTotal overflowing)"
proof -
  have u: "selectedCustomerType overflowing \<notin> customerType.name ` set (customerTypes overflowing)"
    by (simp add: overflowing_def addToCart_def initial_def)
  then have p: "discountPercentage overflowing = 0" by (rule discountPercentage_unknown)
  have d: "discountAmount (calculateTotal overflowing) = NaN"
    by (simp add: calculateTotal_fields(2) subtotal_overflowing p round64_0)
  have t: "total (calculateTotal overflowing) = NaN"
    by (simp add: calculateTotal_fields(3) subtotal_overflowing d js_sub_def)
  show ?thesis
    by (simp add: u in_range_overflowing p subtotal_overflowing d t)
qed

text \<open>
  Claim C10, amended. When no customer type of the list has the selected name, the
  discount percentage is 0; and when the subtotal is finite, the discount amount is 0
  and the total is the subtotal.
\<close>

theorem unknown_customer_type_no_discount:
  assumes "selectedCustomerType st \<notin> customerType.name ` set (customerTypes st)"
  shows "discountPercentage st = 0
       \<and> (subtotal (calculateTotal st) = Num s \<longrightarrow>
            discountAmount (calculateTotal st) = Num 0
            \<and> total (calculateTotal st) = subtotal (calculateTotal st))"
proof (intro conjI impI)
  show p: "discountPercentage st = 0"
    using assms by (rule discountPercentage_unknown)
  assume s: "subtotal (calculateTotal st) = Num s"
  then have "is_double s" by (rule subtotal_double)
  then have r: "round64 s = Num s" by (simp add: is_double_def)
  show d: "discountAmount (calculateTotal st) = Num 0"
    by (simp add: calculateTotal_fields(2) s p round64_0)
  show "total (calculateTotal st) = subtotal (calculateTotal st)"
    by (simp add: calculateTotal_fields(3) d s js_sub_def r)
qed

lemma subtotal_unlisted: "subtotal (calculateTotal unlisted) = Num 25000"
  by (simp add: calculateTotal_fields addLineTotal_def unlisted_def session_def initial_def
      lineA_def lineB_def productA_def productB_def getPrice_def round64_numeral)

theorem unknown_customer_type_no_discount_witness:
  "subtotal (calculateTotal unlisted) = Num 25000
   \<and> discountPercentage unlisted = 0
   \<and> discountAmount (calculateTotal unlisted) = Num 0
   \<and> total (calculateTotal unlisted) = Num 25000"
proof -
  have "selectedCustomerType unlisted \<notin> customerType.name ` set (customerTypes unlisted)"
    by (simp add: unlisted_def session_def regularType_def salesType_def)
  from unknown_customer_type_no_discount [OF this, of 25000] subtotal_unlisted
  show ?thesis by simp
qed

subsection \<open>Checkout\<close>


lemma processTransaction_posts:
  "\<not> js_lt (parseFloat (paymentAmount st)) (total (calculateTotal st)) \<Longrightarrow>
   posted (processTransaction post refreshed st) = Some (transactionData st)"
  by (simp add: processTransaction_def Let_def split: response.splits)

lemma processTransaction_success:
  "\<not> js_lt (parseFloat (paymentAmount st)) (total (calculateTotal st)) \<Longrightarrow>
   post (transactionData st) = Resolved \<Longrightarrow>
   processTransaction post refreshed st =
     \<lparr>new_state = st\<lparr>cart := [], paymentAmount := [],
                       products := (case refreshed of None \<Rightarrow> products st | Some ps \<Rightarrow> ps)\<rparr>,
      shown = Success (js_sub (parseFloat (paymentAmount st)) (total (calculateTotal st))),
      posted = Some (transactionData st)\<rparr>"
  by (simp add: processTransaction_def Let_def)

lemma processTransaction_rejected:
  "post (transactionData st) = Rejected detail \<Longrightarrow>
   new_state (processTransaction post refreshed st) = st"
  by (simp add: processTransaction_def Let_def)

lemma processTransaction_insufficient:
  "js_lt (parseFloat (paymentAmount st)) (total (calculateTotal st)) \<Longrightarrow>
   processTransaction post refreshed st
     = \<lparr>new_state = st, shown = InsufficientPayment, posted = None\<rparr>"
  by (simp add: processTransaction_def Let_def)







text \<open>
  Claim C7. When the request is sent and the server accepts it, the cart is emptied
  and the payment amount reset to the empty text (the payment method and the customer
  type stay); when the server rejects it, the whole state is as before; and when the
  payment is less than the total nothing is sent and the state is as before.
\<close>

theorem submission_outcome:
  "(\<not> js_lt (parseFloat (paymentAmount st)) (total (calculateTotal st))
      \<and> post (transactionData st) = Resolved \<longrightarrow>
        cart (new_state (processTransaction post refreshed st)) = []
        \<and> paymentAmount (new_state (processTransaction post refreshed st)) = []
        \<and> paymentMethod (new_state (processTransaction post refreshed st)) = paymentMethod st
        \<and> selectedCustomerType (new_state (processTransaction post refreshed st))
            = selectedCustomerType st)
   \<and> (post (transactionData st) = Rejected detail \<longrightarrow>
        new_state (processTransaction post refreshed st) = st)
   \<and> (js_lt (parseFloat (paymentAmount st)) (total (calculateTotal st)) \<longrightarrow>
        new_state (processTransaction post refreshed st) = st
        \<and> posted (processTransaction post refreshed st) = None)"
  by (simp add: processTransaction_success processTransaction_rejected
      processTransaction_insufficient)

theorem submission_outcome_witness:
  "cart (new_state (processTransaction (\<lambda>r. Resolved) None session)) = []
   \<and> paymentAmount (new_state (processTransaction (\<lambda>r. Resolved) None session)) = []
   \<and> new_state (processTransaction (\<lambda>r. Rejected (Some ''Stok tidak mencukupi'')) None session)
       = session
   \<and> new_state (processTransaction (\<lambda>r. Resolved) None short_session) = short_session"
proof -
  have p: "parseFloat (paymentAmount session) = Num 25000"
    by (simp add: session_def parse25000)
  have ok: "\<not> js_lt (parseFloat (paymentAmount session)) (total (calculateTotal session))"
    by (simp add: p total_regular)
  have "parseFloat (paymentAmount short_session) = Num 15000"
    by (simp add: short_session_def parse15000)
  moreover have "total (calculateTotal short_session) = Num 20700"
    by (simp add: short_session_def calculateTotal_paymentAmount total_sales)
  ultimately have short:
    "js_lt (parseFloat (paymentAmount short_session)) (total (calculateTotal short_session))"
    by simp
  show ?thesis
    using submission_outcome [where st = session and post = "\<lambda>r. Resolved" and refreshed = None]
      submission_outcome [where st = session
        and post = "\<lambda>r. Rejected (Some ''Stok tidak mencukupi'')"
        and detail = "Some ''Stok tidak mencukupi''" and refreshed = None]
      submission_outcome [where st = short_session and post = "\<lambda>r. Resolved"
        and refreshed = None]
      ok short
    by simp
qed

text \<open>
  Claim C8. The request holds the selected customer type, one pair of product
  identifier and quantity for each line of the cart, in the order of the cart, the
  payment method and the parsed payment amount, and nothing else: its type has no
  other field, and it does not change with the customer types and their discounts,
  the product list, or the products (and so the prices) recorded in the lines. It is
  the request \<open>processTransaction\<close> sends.
\<close>

theorem transactionData_projection:
  "customer_type (transactionData st) = selectedCustomerType st
   \<and> items (transactionData st)
       = map (\<lambda>item. \<lparr>request_item.product_id = cart_item.product_id item,
                       request_item.quantity = cart_item.quantity item\<rparr>) (cart st)
   \<and> payment_method (transactionData st) = paymentMethod st
   \<and> payment_amount (transactionData st) = parseFloat (paymentAmount st)
   \<and> transactionData (st\<lparr>customerTypes := cts, products := ps\<rparr>) = transactionData st
   \<and> transactionData (st\<lparr>cart := map (\<lambda>item. item\<lparr>cart_item.product := f item\<rparr>) (cart st)\<rparr>)
       = transactionData st
   \<and> (\<not> js_lt (parseFloat (paymentAmount st)) (total (calculateTotal st)) \<longrightarrow>
        posted (processTransaction post refreshed st) = Some (transactionData st))"
  by (simp add: transactionData_def processTransaction_posts comp_def)

theorem transactionData_projection_witness:
  "customer_type (transactionData session) = ''regular''
   \<and> items (transactionData session)
       = [\<lparr>request_item.product_id = ''A'', request_item.quantity = 2\<rparr>,
          \<lparr>request_item.product_id = ''B'', request_item.quantity = 1\<rparr>]
   \<and> payment_method (transactionData session) = ''tunai''
   \<and> payment_amount (transactionData session) = Num 25000
   \<and> posted (processTransaction (\<lambda>r. Resolved) None session) = Some (transactionData session)"
proof -
  have p: "parseFloat (paymentAmount session) = Num 25000"
    by (simp add: session_def parse25000)
  have ok: "\<not> js_lt (parseFloat (paymentAmount session)) (total (calculateTotal session))"
    by (simp add: p total_regular)
  have f: "selectedCustomerType session = ''regular''" "paymentMethod session = ''tunai''"
    by (simp_all add: session_def initial_def)
  show ?thesis
    using transactionData_projection [where st = session and post = "\<lambda>r. Resolved"
        and refreshed = None] ok
    by (simp add: p f cart_session lineA_def lineB_def)
qed

end
